theory Spec2Isabelle
  imports Complex_Main
begin

section \<open>Neural Thompson Sampling agent (agent.py)\<close>

text \<open>
  A shallow embedding of \<^verbatim>\<open>src/NeuralThompsonSampling/agent.py\<close>. Floating-point
  numbers are modelled as real numbers, numpy arrays and torch tensors as lists (a matrix is
  the list of its rows); the rounding of a result to binary64 is written out where a
  statement depends on it. Python exceptions are values of the type \<open>error\<close>; a function
  that can raise returns \<open>error + 'a\<close>. Sizes (\<open>K\<close>, \<open>T\<close>, \<open>d\<close>, \<open>L\<close>, \<open>m\<close>, \<open>frequency\<close>,
  \<open>batchsize\<close>) are natural numbers.
\<close>

subsection \<open>Errors, vectors and matrices\<close>

datatype error =
    AssertionError      \<comment> \<open>the \<^verbatim>\<open>assert\<close> of \<^verbatim>\<open>forward\<close>\<close>
  | IndexError          \<comment> \<open>an index outside an array\<close>
  | ValueError          \<comment> \<open>seed out of range, shape mismatch, \<^verbatim>\<open>argmax\<close> of an empty array, no parameter\<close>
  | ZeroDivisionError   \<comment> \<open>Python integer division or modulo by zero\<close>
  | TypeError           \<comment> \<open>arithmetic on \<^verbatim>\<open>None\<close>\<close>
  | LinAlgError         \<comment> \<open>\<^verbatim>\<open>np.linalg.inv\<close> of a singular matrix\<close>
  | RuntimeError        \<comment> \<open>\<^verbatim>\<open>backward()\<close> on a tensor that depends on no parameter\<close>
  | NonFinite           \<comment> \<open>the floating-point result is \<^verbatim>\<open>nan\<close> or \<^verbatim>\<open>inf\<close>: no real number models it\<close>

type_synonym vec = "real list"
type_synonym mat = "real list list"

text \<open>A torch tensor handed to \<^verbatim>\<open>forward\<close>: one-dimensional or two-dimensional.\<close>

datatype tensor = Vec vec | Mat mat

definition zeros :: "nat \<Rightarrow> nat \<Rightarrow> mat" where
  "zeros r c = replicate r (replicate c 0)"

definition eye :: "nat \<Rightarrow> mat" where
  "eye n = map (\<lambda>i. map (\<lambda>j. if i = j then 1 else 0) [0..<n]) [0..<n]"

definition dot :: "vec \<Rightarrow> vec \<Rightarrow> real" where
  "dot u v = (\<Sum>i\<leftarrow>[0..<length u]. u ! i * v ! i)"

text \<open>
  \<^verbatim>\<open>matmul k n X W\<close> is the product of \<open>X\<close> (rows of length \<open>k\<close>) with the \<open>k \<times> n\<close> matrix
  \<open>W\<close>. The shape of \<open>W\<close> is passed along because a list of rows cannot record the width of
  a matrix without rows.
\<close>

definition matmul :: "nat \<Rightarrow> nat \<Rightarrow> mat \<Rightarrow> mat \<Rightarrow> mat" where
  "matmul k n X Wm = map (\<lambda>row. map (\<lambda>j. (\<Sum>i\<leftarrow>[0..<k]. row ! i * Wm ! i ! j)) [0..<n]) X"

text \<open>\<open>X\<^sup>T G\<close> for \<open>X\<close> with rows of length \<open>k\<close> and \<open>G\<close> with rows of length \<open>n\<close>: a \<open>k \<times> n\<close> matrix.\<close>

definition matmul_tn :: "nat \<Rightarrow> nat \<Rightarrow> mat \<Rightarrow> mat \<Rightarrow> mat" where
  "matmul_tn k n X G =
     map (\<lambda>i. map (\<lambda>j. (\<Sum>b\<leftarrow>[0..<length X]. X ! b ! i * G ! b ! j)) [0..<n]) [0..<k]"

text \<open>\<open>G W\<^sup>T\<close> for \<open>G\<close> with rows of length \<open>n\<close> and the \<open>k \<times> n\<close> matrix \<open>W\<close>: rows of length \<open>k\<close>.\<close>

definition matmul_nt :: "nat \<Rightarrow> nat \<Rightarrow> mat \<Rightarrow> mat \<Rightarrow> mat" where
  "matmul_nt k n G Wm =
     map (\<lambda>grow. map (\<lambda>i. (\<Sum>j\<leftarrow>[0..<n]. grow ! j * Wm ! i ! j)) [0..<k]) G"

definition mat_map2 :: "(real \<Rightarrow> real \<Rightarrow> real) \<Rightarrow> mat \<Rightarrow> mat \<Rightarrow> mat" where
  "mat_map2 f A B = map2 (map2 f) A B"

definition relu :: "real \<Rightarrow> real" where
  "relu v = max 0 v"

text \<open>The derivative torch uses for ReLU: 1 where the input is positive, 0 elsewhere.\<close>

definition relu_grad :: "real \<Rightarrow> real \<Rightarrow> real" where
  "relu_grad z g = (if 0 < z then g else 0)"

subsection \<open>Random number generators\<close>

text \<open>
  The two generators of the program are taken as parameters: numpy's process-wide generator
  (state \<open>'g\<close>), used by \<^verbatim>\<open>np.random.seed\<close>, \<^verbatim>\<open>np.random.randn\<close> and \<^verbatim>\<open>np.random.shuffle\<close>,
  and the agent's own \<^verbatim>\<open>random.Random\<close> (state \<open>'h\<close>), used by \<^verbatim>\<open>normalvariate\<close>.
  \<open>np_random_interval g i\<close> draws an integer between 0 and \<open>i\<close>.
\<close>

record ('g, 'h) rng_ops =
  np_seed :: "int \<Rightarrow> 'g"
  np_standard_normal :: "'g \<Rightarrow> real \<times> 'g"
  np_random_interval :: "'g \<Rightarrow> nat \<Rightarrow> nat \<times> 'g"
  py_seed :: "int \<Rightarrow> 'h"
  py_standard_normal :: "'h \<Rightarrow> real \<times> 'h"

text \<open>\<^verbatim>\<open>np.random.randn(n)\<close>: \<open>n\<close> successive standard normal draws.\<close>

fun randn :: "('g, 'h) rng_ops \<Rightarrow> 'g \<Rightarrow> nat \<Rightarrow> vec \<times> 'g" where
  "randn ops g 0 = ([], g)"
| "randn ops g (Suc n) =
     (let (z, g1) = np_standard_normal ops g;
          (zs, g2) = randn ops g1 n
      in (z # zs, g2))"

text \<open>\<^verbatim>\<open>np.random.randn(r, c)\<close>: the array is filled row by row.\<close>

fun randn2 :: "('g, 'h) rng_ops \<Rightarrow> 'g \<Rightarrow> nat \<Rightarrow> nat \<Rightarrow> mat \<times> 'g" where
  "randn2 ops g 0 c = ([], g)"
| "randn2 ops g (Suc r) c =
     (let (row, g1) = randn ops g c;
          (rows, g2) = randn2 ops g1 r c
      in (row # rows, g2))"

text \<open>
  \<^verbatim>\<open>np.random.shuffle\<close> on a one-dimensional array: for \<open>i\<close> from \<open>n - 1\<close> down to 1,
  draw \<open>j\<close> between 0 and \<open>i\<close> and swap the entries \<open>i\<close> and \<open>j\<close>.
\<close>

fun shuffle_from :: "('g, 'h) rng_ops \<Rightarrow> nat \<Rightarrow> 'g \<Rightarrow> 'a list \<Rightarrow> 'a list \<times> 'g" where
  "shuffle_from ops 0 g xs = (xs, g)"
| "shuffle_from ops (Suc i) g xs =
     (let (j, g1) = np_random_interval ops g (Suc i)
      in shuffle_from ops i g1 (xs[Suc i := xs ! j, j := xs ! Suc i]))"

definition shuffle :: "('g, 'h) rng_ops \<Rightarrow> 'g \<Rightarrow> 'a list \<Rightarrow> 'a list \<times> 'g" where
  "shuffle ops g xs = shuffle_from ops (length xs - 1) g xs"

subsection \<open>NeuralNetwork\<close>

text \<open>
  The fields of the class. \<open>nn_W\<close> is the \<^verbatim>\<open>ParameterDict\<close> with keys \<^verbatim>\<open>W1\<close>, ...,
  \<^verbatim>\<open>WL\<close> in insertion order (entry \<open>l - 1\<close> of the list is \<^verbatim>\<open>W["Wl"]\<close>), \<open>nn_W0\<close> the deep
  copy taken at construction, and \<open>nn_grad\<close> the \<^verbatim>\<open>.grad\<close> buffers of the parameters, which
  \<^verbatim>\<open>backward()\<close> adds to (an unset buffer is a zero matrix).
\<close>

record network =
  nn_d :: nat
  nn_L :: nat
  nn_m :: nat
  nn_random_seed :: int
  nn_W :: "mat list"
  nn_W0 :: "mat list"
  nn_grad :: "mat list"

text \<open>The shape of \<^verbatim>\<open>W["Wl"]\<close>, following the three branches of the constructor's loop.\<close>

definition layer_shape :: "nat \<Rightarrow> nat \<Rightarrow> nat \<Rightarrow> nat \<Rightarrow> nat \<times> nat" where
  "layer_shape d m L l = (if l = 1 then (d, m) else if l = L then (m, 1) else (m, m))"

text \<open>
  The slice assignment \<^verbatim>\<open>W[r0:r1, c0:c1] = B\<close> on an \<open>R \<times> C\<close> array \<open>W\<close>, for \<open>B\<close> of shape
  \<open>(br, bc)\<close>. numpy broadcasts an axis of length 1 of \<open>B\<close> and raises \<^verbatim>\<open>ValueError\<close> when
  the shapes still differ.
\<close>

definition set_block ::
  "nat \<times> nat \<Rightarrow> nat \<times> nat \<Rightarrow> nat \<times> nat \<Rightarrow> mat \<Rightarrow> nat \<times> nat \<Rightarrow> mat \<Rightarrow> error + mat" where
  "set_block shape rs cs B bshape Wm =
     (case (shape, rs, cs, bshape) of ((R, C), (r0, r1), (c0, c1), (br, bc)) \<Rightarrow>
        if (br = r1 - r0 \<or> br = 1) \<and> (bc = c1 - c0 \<or> bc = 1) then
          Inr (map (\<lambda>i. map (\<lambda>j.
                 if r0 \<le> i \<and> i < r1 \<and> c0 \<le> j \<and> j < c1
                 then B ! (if br = 1 then 0 else i - r0) ! (if bc = 1 then 0 else j - c0)
                 else Wm ! i ! j) [0..<C]) [0..<R])
        else Inl ValueError)"

definition scale_mat :: "real \<Rightarrow> mat \<Rightarrow> mat" where
  "scale_mat a A = map (map (\<lambda>v. v * a)) A"

text \<open>A one-dimensional array of length \<open>n\<close> written into column 0 is an \<open>n \<times> 1\<close> block.\<close>

definition column :: "vec \<Rightarrow> mat" where
  "column v = map (\<lambda>a. [a]) v"

text \<open>One pass of the constructor's loop body: the weight matrix of layer \<open>layer_index\<close>.\<close>

definition build_layer :: "nat \<Rightarrow> nat \<Rightarrow> nat \<Rightarrow> mat \<Rightarrow> mat \<Rightarrow> vec \<Rightarrow> nat \<Rightarrow> error + mat" where
  "build_layer d m L w_for_1 w_for_1_to_Lminus1 w_for_L layer_index =
     (if layer_index = 1 then
        (case set_block (d, m) (0, d div 2) (0, m div 2) w_for_1 (d div 2, m div 2) (zeros d m) of
           Inl e \<Rightarrow> Inl e
         | Inr W1 \<Rightarrow> set_block (d, m) (d div 2, d) (m div 2, m) w_for_1 (d div 2, m div 2) W1)
      else if layer_index = L then
        (case set_block (m, 1) (0, m div 2) (0, 1) (column w_for_L) (m div 2, 1) (zeros m 1) of
           Inl e \<Rightarrow> Inl e
         | Inr W1 \<Rightarrow>
             set_block (m, 1) (m div 2, m) (0, 1) (column (map uminus w_for_L)) (m div 2, 1) W1)
      else
        (case set_block (m, m) (0, m div 2) (0, m div 2) w_for_1_to_Lminus1 (m div 2, m div 2)
                (zeros m m) of
           Inl e \<Rightarrow> Inl e
         | Inr W1 \<Rightarrow>
             set_block (m, m) (m div 2, m) (m div 2, m) w_for_1_to_Lminus1 (m div 2, m div 2) W1))"

text \<open>A loop whose body can raise: the first error ends it.\<close>

fun collect :: "('a \<Rightarrow> error + 'b) \<Rightarrow> 'a list \<Rightarrow> error + 'b list" where
  "collect f [] = Inr []"
| "collect f (x # xs) =
     (case f x of
        Inl e \<Rightarrow> Inl e
      | Inr y \<Rightarrow> (case collect f xs of Inl e \<Rightarrow> Inl e | Inr ys \<Rightarrow> Inr (y # ys)))"

text \<open>
  \<^verbatim>\<open>NeuralNetwork.__init__\<close>. Its first statement reseeds numpy's process-wide generator:
  \<^verbatim>\<open>np.random.seed\<close> raises \<^verbatim>\<open>ValueError\<close> for a seed outside \<open>0, ..., 2\<^sup>3\<^sup>2 - 1\<close>, and for a
  seed in that range the state \<open>g_ambient\<close> the generator had before the call is discarded.
  The generator's state after the three draws is returned with the network. \<^verbatim>\<open>4 / m\<close> is a
  division of Python integers and raises for \<open>m = 0\<close>.
\<close>

definition NeuralNetwork_init ::
  "('g, 'h) rng_ops \<Rightarrow> 'g \<Rightarrow> nat \<Rightarrow> nat \<Rightarrow> nat \<Rightarrow> int \<Rightarrow> error + (network \<times> 'g)" where
  "NeuralNetwork_init ops g_ambient d L m random_seed =
     (if random_seed < 0 \<or> 2 ^ 32 \<le> random_seed then Inl ValueError
      else
        let g0 = np_seed ops random_seed;
            (z1, g1) = randn2 ops g0 (d div 2) (m div 2)
        in if m = 0 then Inl ZeroDivisionError
           else
             let w_for_1 = scale_mat (sqrt (4 / real m)) z1;
                 (z2, g2) = randn2 ops g1 (m div 2) (m div 2);
                 w_for_1_to_Lminus1 = scale_mat (sqrt (4 / real m)) z2;
                 (z3, g3) = randn ops g2 (m div 2);
                 w_for_L = map (\<lambda>v. v * sqrt (2 / real m)) z3
             in case collect (build_layer d m L w_for_1 w_for_1_to_Lminus1 w_for_L) [1..<L + 1] of
                  Inl e \<Rightarrow> Inl e
                | Inr Ws \<Rightarrow>
                    Inr (\<lparr>nn_d = d, nn_L = L, nn_m = m, nn_random_seed = random_seed,
                          nn_W = Ws, nn_W0 = Ws,
                          nn_grad = map (\<lambda>l. case layer_shape d m L l of (k, n) \<Rightarrow> zeros k n)
                                        [1..<L + 1]\<rparr>, g3))"

text \<open>The loop of \<^verbatim>\<open>forward\<close> over the layers \<open>ls\<close>, ReLU after every layer but the last.\<close>

fun forward_layers :: "nat \<Rightarrow> nat \<Rightarrow> nat \<Rightarrow> mat list \<Rightarrow> nat list \<Rightarrow> mat \<Rightarrow> mat" where
  "forward_layers d m L Ws [] x = x"
| "forward_layers d m L Ws (l # ls) x =
     (let x1 = (case layer_shape d m L l of (k, n) \<Rightarrow> matmul k n x (Ws ! (l - 1)));
          x2 = (if l \<noteq> L then map (map relu) x1 else x1)
      in forward_layers d m L Ws ls x2)"

text \<open>
  \<^verbatim>\<open>NeuralNetwork.forward\<close>: a one-dimensional input becomes a batch of one row; the
  assertion checks the row length; the output is scaled by \<open>\<surd>m\<close>.
\<close>

definition forward :: "network \<Rightarrow> tensor \<Rightarrow> error + mat" where
  "forward nn x =
     (let X = (case x of Vec v \<Rightarrow> [v] | Mat M \<Rightarrow> M)
      in if \<forall>row \<in> set X. length row = nn_d nn then
           Inr (map (map (\<lambda>v. v * sqrt (real (nn_m nn))))
                  (forward_layers (nn_d nn) (nn_m nn) (nn_L nn) (nn_W nn) [1..<nn_L nn + 1] X))
         else Inl AssertionError)"


text \<open>
  Reverse-mode differentiation of the loop of \<^verbatim>\<open>forward\<close>, as \<^verbatim>\<open>backward()\<close> performs it:
  for the layers \<open>ls\<close> applied to the input \<open>x\<close>, and \<open>G\<close> the gradient with respect to the
  output of the last of them, it returns the gradients with respect to the weight matrices
  of \<open>ls\<close> and the gradient with respect to \<open>x\<close>.
\<close>

fun backward_layers ::
  "nat \<Rightarrow> nat \<Rightarrow> nat \<Rightarrow> mat list \<Rightarrow> nat list \<Rightarrow> mat \<Rightarrow> mat \<Rightarrow> mat list \<times> mat" where
  "backward_layers d m L Ws [] x G = ([], G)"
| "backward_layers d m L Ws (l # ls) x G =
     (case layer_shape d m L l of (k, n) \<Rightarrow>
        let z = matmul k n x (Ws ! (l - 1));
            a = (if l \<noteq> L then map (map relu) z else z);
            (gs, Ga) = backward_layers d m L Ws ls a G;
            Gz = (if l \<noteq> L then mat_map2 relu_grad z Ga else Ga)
        in (matmul_tn k n x Gz # gs, matmul_nt k n Gz (Ws ! (l - 1))))"

text \<open>The number of columns of the output of \<^verbatim>\<open>forward\<close>.\<close>

definition out_width :: "network \<Rightarrow> nat" where
  "out_width nn =
     (if nn_L nn = 0 then nn_d nn else snd (layer_shape (nn_d nn) (nn_m nn) (nn_L nn) (nn_L nn)))"

text \<open>
  \<^verbatim>\<open>NeuralNetwork.GetGrad\<close>: \<^verbatim>\<open>forward(x)[0, 0].backward()\<close> adds the gradient of the scalar
  output to the \<^verbatim>\<open>.grad\<close> buffers, and the buffers are returned flattened, \<^verbatim>\<open>W1\<close> first.
  Nothing in \<^verbatim>\<open>GetGrad\<close> clears the buffers.
\<close>

definition GetGrad :: "network \<Rightarrow> vec \<Rightarrow> error + (vec \<times> network)" where
  "GetGrad nn x =
     (case forward nn (Mat [x]) of
        Inl e \<Rightarrow> Inl e
      | Inr output \<Rightarrow>
          if out_width nn = 0 then Inl IndexError
          else if nn_L nn = 0 then Inl RuntimeError
          else
            let G = [map (\<lambda>j. if j = 0 then sqrt (real (nn_m nn)) else 0) [0..<out_width nn]];
                (gs, Gx) = backward_layers (nn_d nn) (nn_m nn) (nn_L nn) (nn_W nn)
                             [1..<nn_L nn + 1] [x] G;
                grads = map2 (mat_map2 (+)) (nn_grad nn) gs
            in Inr (concat (map concat grads), nn\<lparr>nn_grad := grads\<rparr>))"

subsection \<open>numpy functions used by the agent\<close>

text \<open>
  \<^verbatim>\<open>np.linalg.inv\<close> over the reals, by Gauss-Jordan elimination on the matrix extended with
  the identity: \<open>None\<close> (\<^verbatim>\<open>LinAlgError\<close>) when a column has no pivot.
\<close>

fun gauss_jordan :: "nat list \<Rightarrow> mat \<Rightarrow> mat option" where
  "gauss_jordan [] M = Some M"
| "gauss_jordan (c # cs) M =
     (case find (\<lambda>r. M ! r ! c \<noteq> 0) [c..<length M] of
        None \<Rightarrow> None
      | Some r \<Rightarrow>
          let M1 = M[c := M ! r, r := M ! c];
              prow = map (\<lambda>v. v / M1 ! c ! c) (M1 ! c);
              M2 = map (\<lambda>i. if i = c then prow
                             else map2 (\<lambda>a b. a - M1 ! i ! c * b) (M1 ! i) prow)
                       [0..<length M]
          in gauss_jordan cs M2)"

definition linalg_inv :: "mat \<Rightarrow> mat option" where
  "linalg_inv A =
     (let n = length A
      in case gauss_jordan [0..<n] (map (\<lambda>i. A ! i @ eye n ! i) [0..<n]) of
           None \<Rightarrow> None
         | Some M \<Rightarrow> Some (map (drop n) M))"

text \<open>\<^verbatim>\<open>v.dot(A)\<close> for a one-dimensional \<open>v\<close> and a square matrix \<open>A\<close>.\<close>

definition vec_mat :: "vec \<Rightarrow> mat \<Rightarrow> vec" where
  "vec_mat v A = map (\<lambda>j. (\<Sum>i\<leftarrow>[0..<length v]. v ! i * A ! i ! j)) [0..<length A]"

text \<open>\<^verbatim>\<open>np.argmax\<close>: the first index of a maximal entry; \<^verbatim>\<open>ValueError\<close> on an empty array.\<close>

fun argmax_from :: "real list \<Rightarrow> nat \<Rightarrow> nat \<Rightarrow> real \<Rightarrow> nat" where
  "argmax_from [] i best v = best"
| "argmax_from (x # xs) i best v =
     (if v < x then argmax_from xs (Suc i) i x else argmax_from xs (Suc i) best v)"

definition argmax :: "real list \<Rightarrow> nat option" where
  "argmax xs = (case xs of [] \<Rightarrow> None | x # xs' \<Rightarrow> Some (argmax_from xs' 1 0 x))"

text \<open>A loop that threads a state through a body that can raise.\<close>

fun fold_err :: "('s \<Rightarrow> 'a \<Rightarrow> error + 's) \<Rightarrow> 'a list \<Rightarrow> 's \<Rightarrow> error + 's" where
  "fold_err f [] s = Inr s"
| "fold_err f (x # xs) s = (case f s x of Inl e \<Rightarrow> Inl e | Inr s' \<Rightarrow> fold_err f xs s')"

subsection \<open>NeuralAgent\<close>

text \<open>The arguments of \<^verbatim>\<open>NeuralAgent.__init__\<close>; an omitted \<^verbatim>\<open>batchsize\<close> is \<open>None\<close>.\<close>

record config =
  cf_K :: nat
  cf_T :: nat
  cf_d :: nat
  cf_L :: nat
  cf_m :: nat
  cf_nu :: real
  cf_lambda :: real
  cf_eta :: real
  cf_frequency :: nat
  cf_batchsize :: "nat option"
  cf_random_seed :: int

text \<open>
  The fields of the agent. \<open>ag_np_random\<close> is not a field of the class: it is the state of
  numpy's process-wide generator, which \<^verbatim>\<open>Update\<close> draws from when it shuffles.
\<close>

record ('g, 'h) agent =
  ag_random_generator :: 'h
  ag_random_seed :: int
  ag_K :: nat
  ag_T :: nat
  ag_L :: nat
  ag_m :: nat
  ag_d :: nat
  ag_p :: int
  ag_mynn :: network
  ag_nu :: real
  ag_lambda :: real
  ag_eta :: real
  ag_frequency :: nat
  ag_batchsize :: "nat option"
  ag_U :: mat
  ag_t :: nat
  ag_history_reward :: vec
  ag_history_action :: vec
  ag_predicted_reward :: vec
  ag_history_context :: mat
  ag_np_random :: 'g

text \<open>
  \<^verbatim>\<open>NeuralAgent.__init__\<close>. The network is built with its default seed 12345.
  \<^verbatim>\<open>torch.optim.SGD\<close> refuses an empty parameter list and a negative learning rate,
  \<^verbatim>\<open>np.eye\<close> a negative size.
\<close>

definition NeuralAgent_init ::
  "('g, 'h) rng_ops \<Rightarrow> 'g \<Rightarrow> config \<Rightarrow> error + ('g, 'h) agent" where
  "NeuralAgent_init ops g_ambient cfg =
     (let p = int (cf_m cfg) + int (cf_m cfg) * int (cf_d cfg)
              + int (cf_m cfg) * int (cf_m cfg) * (int (cf_L cfg) - 2)
      in case NeuralNetwork_init ops g_ambient (cf_d cfg) (cf_L cfg) (cf_m cfg) 12345 of
           Inl e \<Rightarrow> Inl e
         | Inr (nn, g) \<Rightarrow>
             if cf_L cfg = 0 \<or> cf_eta cfg < 0 then Inl ValueError
             else if p < 0 then Inl ValueError
             else Inr \<lparr>ag_random_generator = py_seed ops (cf_random_seed cfg),
                       ag_random_seed = cf_random_seed cfg,
                       ag_K = cf_K cfg, ag_T = cf_T cfg,
                       ag_L = cf_L cfg, ag_m = cf_m cfg, ag_d = cf_d cfg, ag_p = p,
                       ag_mynn = nn,
                       ag_nu = cf_nu cfg, ag_lambda = cf_lambda cfg, ag_eta = cf_eta cfg,
                       ag_frequency = cf_frequency cfg, ag_batchsize = cf_batchsize cfg,
                       ag_U = map (map (\<lambda>v. cf_lambda cfg * v)) (eye (nat p)),
                       ag_t = 0,
                       ag_history_reward = replicate (cf_T cfg) 0,
                       ag_history_action = replicate (cf_T cfg) 0,
                       ag_predicted_reward = replicate (cf_T cfg) 0,
                       ag_history_context = zeros (cf_T cfg) (cf_d cfg),
                       ag_np_random = g\<rparr>)"

text \<open>
  The body of the loop over the arms in \<^verbatim>\<open>Action\<close>. The loop state is the network (its
  gradient buffers change), the agent's generator and the two arrays \<^verbatim>\<open>predict_reward_\<close> and
  \<^verbatim>\<open>sample_reward_\<close>. \<^verbatim>\<open>normalvariate(mu, sigma)\<close> returns \<open>mu + z * sigma\<close> for a standard
  normal draw \<open>z\<close>. The square root of a negative number is \<^verbatim>\<open>nan\<close>.
\<close>

definition Action_arm ::
  "('g, 'h) rng_ops \<Rightarrow> ('g, 'h) agent \<Rightarrow> mat \<Rightarrow> mat \<Rightarrow> network \<times> 'h \<times> vec \<times> vec \<Rightarrow> nat
     \<Rightarrow> error + (network \<times> 'h \<times> vec \<times> vec)" where
  "Action_arm ops s U_inverse context_list st arm =
     (case st of (nn, rg, predict_reward, sample_reward) \<Rightarrow>
        if length context_list \<le> arm - 1 then Inl IndexError
        else
          (case GetGrad nn (context_list ! (arm - 1)) of
            Inl e \<Rightarrow> Inl e
          | Inr (grad_arm, nn1) \<Rightarrow>
              if length grad_arm \<noteq> length U_inverse then Inl ValueError
              else
                let sigma_t_k2 = ag_lambda s * dot (vec_mat grad_arm U_inverse) grad_arm
                                 / real (ag_m s)
                in (case forward nn1 (Vec (context_list ! (arm - 1))) of
                     Inl e \<Rightarrow> Inl e
                   | Inr [[mu]] \<Rightarrow>
                       if (ag_nu s)\<^sup>2 * sigma_t_k2 < 0 then Inl NonFinite
                       else
                         let (z, rg1) = py_standard_normal ops rg
                         in Inr (nn1, rg1, predict_reward[arm - 1 := mu],
                                 sample_reward[arm - 1 := mu + z * sqrt ((ag_nu s)\<^sup>2 * sigma_t_k2)])
                   | Inr _ \<Rightarrow> Inl ValueError)))"

text \<open>\<^verbatim>\<open>NeuralAgent.Action\<close>: the chosen arm and the agent with the round recorded.\<close>

definition Action ::
  "('g, 'h) rng_ops \<Rightarrow> ('g, 'h) agent \<Rightarrow> mat \<Rightarrow> error + (nat \<times> ('g, 'h) agent)" where
  "Action ops s context_list =
     (case linalg_inv (ag_U s) of
        None \<Rightarrow> Inl LinAlgError
      | Some U_inverse \<Rightarrow>
          (case fold_err (Action_arm ops s U_inverse context_list) [1..<ag_K s + 1]
                 (ag_mynn s, ag_random_generator s, replicate (ag_K s) 0, replicate (ag_K s) 0) of
            Inl e \<Rightarrow> Inl e
          | Inr (nn, rg, predict_reward, sample_reward) \<Rightarrow>
              (case argmax sample_reward of
                None \<Rightarrow> Inl ValueError
              | Some ind \<Rightarrow>
                  if length (ag_history_action s) \<le> ag_t s then Inl IndexError
                  else if length (ag_history_context s) \<le> ag_t s then Inl IndexError
                  else if length (ag_predicted_reward s) \<le> ag_t s then Inl IndexError
                  else Inr (ind,
                    s\<lparr>ag_history_action := (ag_history_action s)[ag_t s := real ind],
                      ag_history_context := (ag_history_context s)[ag_t s := context_list ! ind],
                      ag_predicted_reward := (ag_predicted_reward s)[ag_t s := predict_reward ! ind],
                      ag_mynn := nn, ag_random_generator := rg\<rparr>))))"

text \<open>
  One minibatch of the retraining loop: \<^verbatim>\<open>zero_grad\<close>, \<^verbatim>\<open>forward\<close>, the loss (mean squared
  error of column 0 of the output plus \<open>\<lambda> \<parallel>W - W0\<parallel>\<^sup>2 / 2 / p\<close>), \<^verbatim>\<open>backward\<close>, and one
  gradient step of size \<open>\<eta>\<close>. Dividing a tensor by \<open>p = 0\<close> gives \<^verbatim>\<open>inf\<close> or \<^verbatim>\<open>nan\<close>.
\<close>

definition sgd_step :: "real \<Rightarrow> int \<Rightarrow> real \<Rightarrow> network \<Rightarrow> mat \<Rightarrow> vec \<Rightarrow> error + network" where
  "sgd_step lam p eta nn X y =
     (case forward nn (Mat X) of
        Inl e \<Rightarrow> Inl e
      | Inr output \<Rightarrow>
          if out_width nn = 0 then Inl IndexError
          else if p = 0 then Inl NonFinite
          else
            let G = map2 (\<lambda>orow yb. map (\<lambda>j. if j = 0
                         then 2 * (orow ! 0 - yb) / real (length X) * sqrt (real (nn_m nn))
                         else 0) [0..<out_width nn]) output y;
                (gs, Gx) = backward_layers (nn_d nn) (nn_m nn) (nn_L nn) (nn_W nn)
                             [1..<nn_L nn + 1] X G;
                reg = map2 (mat_map2 (\<lambda>w w0. lam * (w - w0) / real_of_int p)) (nn_W nn) (nn_W0 nn);
                grads = map2 (mat_map2 (+)) gs reg
            in Inr (nn\<lparr>nn_W := map2 (mat_map2 (\<lambda>w g. w - eta * g)) (nn_W nn) grads,
                       nn_grad := grads\<rparr>))"

text \<open>The body of the loop over \<^verbatim>\<open>batch_index\<close>: the slice of the shuffled history, then the step.\<close>

definition train_batch ::
  "('g, 'h) agent \<Rightarrow> nat \<Rightarrow> mat \<Rightarrow> vec \<Rightarrow> network \<Rightarrow> nat \<Rightarrow> error + network" where
  "train_batch s batchsize temp_history_context temp_history_reward nn batch_index =
     (let X_temp = (if batch_index < ag_t s div batchsize
                    then take batchsize (drop (batch_index * batchsize) temp_history_context)
                    else drop (batch_index * batchsize) temp_history_context);
          y_temp = (if batch_index < ag_t s div batchsize
                    then take batchsize (drop (batch_index * batchsize) temp_history_reward)
                    else drop (batch_index * batchsize) temp_history_reward)
      in sgd_step (ag_lambda s) (ag_p s) (ag_eta s) nn X_temp y_temp)"

text \<open>
  One training epoch (one pass of the loop over \<^verbatim>\<open>jj\<close>): shuffle the indices \<open>0..t\<close>, then
  run the minibatches. \<^verbatim>\<open>self.t // self.batchsize\<close> raises \<^verbatim>\<open>TypeError\<close> for an unset
  \<^verbatim>\<open>batchsize\<close> and \<^verbatim>\<open>ZeroDivisionError\<close> for 0.
\<close>

definition train_epoch ::
  "('g, 'h) rng_ops \<Rightarrow> ('g, 'h) agent \<Rightarrow> network \<times> 'g \<Rightarrow> nat \<Rightarrow> error + (network \<times> 'g)" where
  "train_epoch ops s st jj =
     (case st of (nn, g) \<Rightarrow>
        let (history_index, g1) = shuffle ops g [0..<ag_t s + 1];
            temp_history_context = map (\<lambda>i. ag_history_context s ! i) history_index;
            temp_history_reward = map (\<lambda>i. ag_history_reward s ! i) history_index
        in (case ag_batchsize s of
              None \<Rightarrow> Inl TypeError
            | Some batchsize \<Rightarrow>
                if batchsize = 0 then Inl ZeroDivisionError
                else
                  (case fold_err (train_batch s batchsize temp_history_context temp_history_reward)
                          [0..<ag_t s div batchsize + 1] nn of
                     Inl e \<Rightarrow> Inl e
                   | Inr nn1 \<Rightarrow> Inr (nn1, g1))))"

text \<open>
  The retraining branch of \<^verbatim>\<open>Update\<close>: every weight matrix is set to a copy of its entry in
  \<^verbatim>\<open>W0\<close>, then the epochs \<open>jj = 0, ..., min(t, 100) - 1\<close> run.
\<close>

definition retrain ::
  "('g, 'h) rng_ops \<Rightarrow> ('g, 'h) agent \<Rightarrow> network \<Rightarrow> 'g \<Rightarrow> error + (network \<times> 'g)" where
  "retrain ops s nn g =
     fold_err (train_epoch ops s) [0..<min (ag_t s) 100] (nn\<lparr>nn_W := nn_W0 nn\<rparr>, g)"

text \<open>
  \<^verbatim>\<open>NeuralAgent.Update\<close>. \<^verbatim>\<open>grad_parameter\<close> is one-dimensional, so its \<^verbatim>\<open>transpose()\<close>
  is itself and \<^verbatim>\<open>dot\<close> is the inner product: a scalar, which \<^verbatim>\<open>+\<close> adds to every entry
  of \<^verbatim>\<open>U\<close>.
\<close>

definition Update ::
  "('g, 'h) rng_ops \<Rightarrow> ('g, 'h) agent \<Rightarrow> real \<Rightarrow> error + ('g, 'h) agent" where
  "Update ops s reward =
     (if length (ag_history_reward s) \<le> ag_t s then Inl IndexError
      else
        let s1 = s\<lparr>ag_history_reward := (ag_history_reward s)[ag_t s := reward]\<rparr>
        in if length (ag_history_action s) \<le> ag_t s then Inl IndexError
           else if length (ag_history_context s) \<le> ag_t s then Inl IndexError
           else
             (case GetGrad (ag_mynn s) (ag_history_context s ! ag_t s) of
               Inl e \<Rightarrow> Inl e
             | Inr (grad_parameter, nn1) \<Rightarrow>
                 let U1 = map (map (\<lambda>u. u + dot grad_parameter grad_parameter / real (ag_m s)))
                              (ag_U s)
                 in if ag_frequency s = 0 then Inl ZeroDivisionError
                    else
                      (case (if (ag_t s + 1) mod ag_frequency s = 0
                            then retrain ops s1 nn1 (ag_np_random s)
                            else Inr (nn1, ag_np_random s)) of
                        Inl e \<Rightarrow> Inl e
                      | Inr (nn2, g2) \<Rightarrow>
                          Inr (s1\<lparr>ag_U := U1, ag_mynn := nn2, ag_np_random := g2,
                                  ag_t := ag_t s + 1\<rparr>))))"

subsection \<open>Driving the agent\<close>

text \<open>
  The caller's loop: each round supplies the contexts, takes the chosen arm and reveals a
  reward. The result is the list of chosen arms and the agent after the last round.
\<close>

fun rounds ::
  "('g, 'h) rng_ops \<Rightarrow> ('g, 'h) agent \<Rightarrow> (mat \<times> real) list \<Rightarrow> error + (nat list \<times> ('g, 'h) agent)" where
  "rounds ops s [] = Inr ([], s)"
| "rounds ops s ((context_list, reward) # rest) =
     (case Action ops s context_list of
        Inl e \<Rightarrow> Inl e
      | Inr (ind, s1) \<Rightarrow>
          (case Update ops s1 reward of
             Inl e \<Rightarrow> Inl e
           | Inr s2 \<Rightarrow>
               (case rounds ops s2 rest of
                  Inl e \<Rightarrow> Inl e
                | Inr (inds, s3) \<Rightarrow> Inr (ind # inds, s3))))"

text \<open>
  numpy's generator belongs to the process, not to the agent: between two calls of the
  agent other code can draw from it or reseed it. In \<open>rounds_shared\<close> every round carries,
  besides the contexts and the reward, the function \<open>other\<close>: what the rest of the process
  does to the state of that generator between the round's \<^verbatim>\<open>Action\<close> and its \<^verbatim>\<open>Update\<close>.
  \<^verbatim>\<open>Action\<close> neither reads nor writes that state, so draws made before the \<^verbatim>\<open>Action\<close> of a
  round are covered as well. With \<open>other = id\<close> in every round this is \<open>rounds\<close>.
\<close>

fun rounds_shared ::
  "('g, 'h) rng_ops \<Rightarrow> ('g, 'h) agent \<Rightarrow> (mat \<times> real \<times> ('g \<Rightarrow> 'g)) list
     \<Rightarrow> error + (nat list \<times> ('g, 'h) agent)" where
  "rounds_shared ops s [] = Inr ([], s)"
| "rounds_shared ops s ((context_list, reward, other) # rest) =
     (case Action ops s context_list of
        Inl e \<Rightarrow> Inl e
      | Inr (ind, s1) \<Rightarrow>
          (case Update ops (s1\<lparr>ag_np_random := other (ag_np_random s1)\<rparr>) reward of
             Inl e \<Rightarrow> Inl e
           | Inr s2 \<Rightarrow>
               (case rounds_shared ops s2 rest of
                  Inl e \<Rightarrow> Inl e
                | Inr (inds, s3) \<Rightarrow> Inr (ind # inds, s3))))"

text \<open>
  A whole run: construct the agent in a process whose numpy generator is in the state
  \<open>g_ambient\<close>, then play the rounds.
\<close>

definition run_shared ::
  "('g, 'h) rng_ops \<Rightarrow> 'g \<Rightarrow> config \<Rightarrow> (mat \<times> real \<times> ('g \<Rightarrow> 'g)) list
     \<Rightarrow> error + (nat list \<times> ('g, 'h) agent)" where
  "run_shared ops g_ambient cfg rs =
     (case NeuralAgent_init ops g_ambient cfg of Inl e \<Rightarrow> Inl e | Inr s \<Rightarrow> rounds_shared ops s rs)"

text \<open>What two runs are compared on: the arms chosen and the final \<open>U\<close>, or the error raised.\<close>

definition arms_and_U :: "error + (nat list \<times> ('g, 'h) agent) \<Rightarrow> error + (nat list \<times> mat)" where
  "arms_and_U r = (case r of Inl e \<Rightarrow> Inl e | Inr (inds, s) \<Rightarrow> Inr (inds, ag_U s))"

subsection \<open>Properties of matrices\<close>








text \<open>The matrix \<open>\<lambda> I + c \<one>\<close>, where every entry of \<open>\<one>\<close> is 1: the shape \<open>U\<close> keeps.\<close>

definition ridge_plus_const :: "real \<Rightarrow> nat \<Rightarrow> real \<Rightarrow> mat" where
  "ridge_plus_const lam p c = map (\<lambda>i. map (\<lambda>j. (if i = j then lam else 0) + c) [0..<p]) [0..<p]"


text \<open>
  The shape of an agent that the constructor, \<^verbatim>\<open>Action\<close> and \<^verbatim>\<open>Update\<close> keep: history arrays
  of length \<open>T\<close>, recorded contexts of length \<open>d\<close>, a network with a layer and a positive
  width.
\<close>

definition wf_agent :: "('g, 'h) agent \<Rightarrow> bool" where
  "wf_agent s \<longleftrightarrow>
     length (ag_history_reward s) = ag_T s \<and> length (ag_history_action s) = ag_T s \<and>
     length (ag_history_context s) = ag_T s \<and> length (ag_predicted_reward s) = ag_T s \<and>
     (\<forall>row \<in> set (ag_history_context s). length row = nn_d (ag_mynn s)) \<and>
     nn_L (ag_mynn s) \<noteq> 0 \<and> 0 < nn_m (ag_mynn s)"

subsection \<open>Rounding to binary64\<close>



subsection \<open>The initial weights\<close>

text \<open>
  For even sizes the two slice assignments of a hidden layer give a matrix with the same
  block \<open>B\<close> on both diagonal blocks, and the last layer is a column with \<open>v\<close> on top of
  \<open>-v\<close>.
\<close>

definition block_diag :: "nat \<Rightarrow> nat \<Rightarrow> mat \<Rightarrow> mat" where
  "block_diag k n B =
     map (\<lambda>i. map (\<lambda>j. if i < k div 2 \<and> j < n div 2 then B ! i ! j
                       else if k div 2 \<le> i \<and> n div 2 \<le> j then B ! (i - k div 2) ! (j - n div 2)
                       else 0) [0..<n]) [0..<k]"

definition antisym_column :: "nat \<Rightarrow> vec \<Rightarrow> mat" where
  "antisym_column m v = map (\<lambda>i. [if i < m div 2 then v ! i else - v ! (i - m div 2)]) [0..<m]"

definition init_layer :: "nat \<Rightarrow> nat \<Rightarrow> nat \<Rightarrow> mat \<Rightarrow> mat \<Rightarrow> vec \<Rightarrow> nat \<Rightarrow> mat" where
  "init_layer d m L w1 w2 wL l =
     (if l = 1 then block_diag d m w1 else if l = L then antisym_column m wL else block_diag m m w2)"

text \<open>An input whose second half repeats its first half.\<close>

definition halves_equal :: "nat \<Rightarrow> vec \<Rightarrow> bool" where
  "halves_equal n v \<longleftrightarrow> length v = n \<and> (\<forall>j < n div 2. v ! (j + n div 2) = v ! j)"

subsection \<open>A small run\<close>

text \<open>
  Generators whose normal draws for numpy are all 1 and for \<^verbatim>\<open>normalvariate\<close> all 0, and
  whose integer draws are all 0; the state counts the draws. With \<open>d = m = L = 2\<close> the
  network has \<open>p = 6\<close> parameters.
\<close>

definition example_ops :: "(nat, nat) rng_ops" where
  "example_ops = \<lparr>np_seed = (\<lambda>s. 0), np_standard_normal = (\<lambda>g. (1, Suc g)),
     np_random_interval = (\<lambda>g i. (0, Suc g)), py_seed = (\<lambda>s. 0),
     py_standard_normal = (\<lambda>h. (0, Suc h))\<rparr>"

definition example_config :: config where
  "example_config = \<lparr>cf_K = 2, cf_T = 3, cf_d = 2, cf_L = 2, cf_m = 2, cf_nu = 1,
     cf_lambda = 1, cf_eta = 1 / 4, cf_frequency = 2, cf_batchsize = Some 1,
     cf_random_seed = 12345\<rparr>"

text \<open>The network the constructor builds from these draws.\<close>

definition example_network :: network where
  "example_network = \<lparr>nn_d = 2, nn_L = 2, nn_m = 2, nn_random_seed = 12345,
     nn_W = [[[sqrt 2, 0], [0, sqrt 2]], [[1], [- 1]]],
     nn_W0 = [[[sqrt 2, 0], [0, sqrt 2]], [[1], [- 1]]],
     nn_grad = [[[0, 0], [0, 0]], [[0], [0]]]\<rparr>"

text \<open>The network the constructor builds from the same draws for \<open>L = 1\<close>: a single layer.\<close>

definition one_layer_network :: network where
  "one_layer_network = \<lparr>nn_d = 2, nn_L = 1, nn_m = 2, nn_random_seed = 12345,
     nn_W = [[[sqrt 2, 0], [0, sqrt 2]]],
     nn_W0 = [[[sqrt 2, 0], [0, sqrt 2]]],
     nn_grad = [[[0, 0], [0, 0]]]\<rparr>"

text \<open>The agent after construction.\<close>

definition example_agent0 :: "(nat, nat) agent" where
  "example_agent0 = \<lparr>ag_random_generator = 0, ag_random_seed = 12345, ag_K = 2,
     ag_T = 3, ag_L = 2, ag_m = 2, ag_d = 2, ag_p = 6, ag_mynn = example_network,
     ag_nu = 1, ag_lambda = 1, ag_eta = 1 / 4, ag_frequency = 2, ag_batchsize = Some 1,
     ag_U = [[1, 0, 0, 0, 0, 0], [0, 1, 0, 0, 0, 0], [0, 0, 1, 0, 0, 0],
             [0, 0, 0, 1, 0, 0], [0, 0, 0, 0, 1, 0], [0, 0, 0, 0, 0, 1]],
     ag_t = 0, ag_history_reward = [0, 0, 0], ag_history_action = [0, 0, 0],
     ag_predicted_reward = [0, 0, 0], ag_history_context = [[0, 0], [0, 0], [0, 0]],
     ag_np_random = 3\<rparr>"

text \<open>The contexts of the two arms in the first round.\<close>

definition example_contexts :: mat where
  "example_contexts = [[- 1, 0], [1, 0]]"

text \<open>
  After \<^verbatim>\<open>Action\<close> on these contexts: the sampled values are 0 and 2, and arm 1 is chosen.
\<close>

definition example_agent1 :: "(nat, nat) agent" where
  "example_agent1 = example_agent0\<lparr>ag_random_generator := 2,
     ag_mynn := example_network\<lparr>nn_grad :=
       [[[sqrt 2, 0], [0, 0]], [[2], [0]]]\<rparr>,
     ag_history_action := [1, 0, 0], ag_predicted_reward := [2, 0, 0],
     ag_history_context := [[1, 0], [0, 0], [0, 0]]\<rparr>"

text \<open>After \<^verbatim>\<open>Update\<close> with reward 1.\<close>

definition example_agent2 :: "(nat, nat) agent" where
  "example_agent2 = example_agent1\<lparr>
     ag_mynn := example_network\<lparr>nn_grad :=
       [[[2 * sqrt 2, 0], [0, 0]], [[4], [0]]]\<rparr>,
     ag_U := [[13, 12, 12, 12, 12, 12], [12, 13, 12, 12, 12, 12],
              [12, 12, 13, 12, 12, 12], [12, 12, 12, 13, 12, 12],
              [12, 12, 12, 12, 13, 12], [12, 12, 12, 12, 12, 13]],
     ag_t := 1, ag_history_reward := [1, 0, 0]\<rparr>"

text \<open>After a second \<^verbatim>\<open>Update\<close>, with reward 1/2, and no \<^verbatim>\<open>Action\<close> in between.\<close>

definition example_agent3 :: "(nat, nat) agent" where
  "example_agent3 = example_agent2\<lparr>
     ag_mynn := example_network\<lparr>
       nn_W := [[[sqrt 2 / 2, 0], [0, sqrt 2]], [[0], [- 1]]],
       nn_grad := [[[2 * sqrt 2, 0], [0, 0]], [[4], [0]]]\<rparr>,
     ag_U := [[25, 24, 24, 24, 24, 24], [24, 25, 24, 24, 24, 24],
              [24, 24, 25, 24, 24, 24], [24, 24, 24, 25, 24, 24],
              [24, 24, 24, 24, 25, 24], [24, 24, 24, 24, 24, 25]],
     ag_t := 2, ag_history_reward := [1, 1 / 2, 0], ag_np_random := 4\<rparr>"

subsection \<open>A run whose arithmetic is exact\<close>

text \<open>
  Generators whose normal draws for numpy are 1, 1, 0, 0, ... and for \<^verbatim>\<open>normalvariate\<close>
  all 0; the integer draw between 0 and \<open>i\<close> is 0 when the number of draws made so far is
  even and \<open>i\<close> when it is odd; the state counts the draws.
\<close>

definition sparse_ops :: "(nat, nat) rng_ops" where
  "sparse_ops = \<lparr>np_seed = (\<lambda>s. 0), np_standard_normal = (\<lambda>g. (if g < 2 then 1 else 0, g + 1)),
     np_random_interval = (\<lambda>g i. (if even g then 0 else i, g + 1)), py_seed = (\<lambda>s. 0),
     py_standard_normal = (\<lambda>h. (0, h + 1))\<rparr>"






subsection \<open>Two runs that share numpy's generator\<close>

text \<open>
  The same generators with \<open>d = m = L = 2\<close>, \<open>\<nu> = 0\<close> and retraining every second round.
\<close>

definition greedy_config :: config where
  "greedy_config = \<lparr>cf_K = 2, cf_T = 3, cf_d = 2, cf_L = 2, cf_m = 2, cf_nu = 0,
     cf_lambda = 1, cf_eta = 1 / 4, cf_frequency = 2, cf_batchsize = Some 1,
     cf_random_seed = 12345\<rparr>"

definition greedy_network :: network where
  "greedy_network = \<lparr>nn_d = 2, nn_L = 2, nn_m = 2, nn_random_seed = 12345,
     nn_W = [[[sqrt 2, 0], [0, sqrt 2]], [[0], [0]]],
     nn_W0 = [[[sqrt 2, 0], [0, sqrt 2]], [[0], [0]]],
     nn_grad = [[[0, 0], [0, 0]], [[0], [0]]]\<rparr>"

text \<open>The agent after construction; numpy's generator has made three draws.\<close>

definition greedy_agent0 :: "(nat, nat) agent" where
  "greedy_agent0 = \<lparr>ag_random_generator = 0, ag_random_seed = 12345, ag_K = 2,
     ag_T = 3, ag_L = 2, ag_m = 2, ag_d = 2, ag_p = 6, ag_mynn = greedy_network,
     ag_nu = 0, ag_lambda = 1, ag_eta = 1 / 4, ag_frequency = 2, ag_batchsize = Some 1,
     ag_U = ridge_plus_const 1 6 0,
     ag_t = 0, ag_history_reward = [0, 0, 0], ag_history_action = [0, 0, 0],
     ag_predicted_reward = [0, 0, 0], ag_history_context = [[0, 0], [0, 0], [0, 0]],
     ag_np_random = 3\<rparr>"

text \<open>Round 1, contexts \<open>[1, 0]\<close> and \<open>[-1, 0]\<close>: arm 0 is chosen; the reward is 1.\<close>

definition greedy_agent1 :: "(nat, nat) agent" where
  "greedy_agent1 = greedy_agent0\<lparr>ag_random_generator := 2,
     ag_mynn := greedy_network\<lparr>nn_grad := [[[0, 0], [0, 0]], [[2], [0]]]\<rparr>,
     ag_history_context := [[1, 0], [0, 0], [0, 0]]\<rparr>"

definition greedy_agent2 :: "(nat, nat) agent" where
  "greedy_agent2 = greedy_agent1\<lparr>
     ag_mynn := greedy_network\<lparr>nn_grad := [[[0, 0], [0, 0]], [[4], [0]]]\<rparr>,
     ag_U := ridge_plus_const 1 6 8, ag_t := 1, ag_history_reward := [1, 0, 0]\<rparr>"

text \<open>Round 2, contexts \<open>[2, 0]\<close> and \<open>[-1, 0]\<close>: after \<^verbatim>\<open>Action\<close>, which chooses arm 0.\<close>

definition greedy_agent3 :: "(nat, nat) agent" where
  "greedy_agent3 = greedy_agent2\<lparr>ag_random_generator := 4,
     ag_mynn := greedy_network\<lparr>nn_grad := [[[0, 0], [0, 0]], [[8], [0]]]\<rparr>,
     ag_history_context := [[1, 0], [2, 0], [0, 0]]\<rparr>"

text \<open>
  The \<^verbatim>\<open>Update\<close> of round 2, with reward 0, retrains. When nothing else has drawn from
  numpy's generator its state is 3: the shuffle leaves the order \<open>[0, 1]\<close>, and after the
  step on \<open>([1, 0], 1)\<close> the step on \<open>([2, 0], 0)\<close> drives the weights of the first hidden
  unit below zero.
\<close>

definition quiet_agent4 :: "(nat, nat) agent" where
  "quiet_agent4 = greedy_agent3\<lparr>
     ag_mynn := greedy_network\<lparr>
       nn_W := [[[- (3 * sqrt 2), 0], [0, sqrt 2]], [[- (169 / 24)], [0]]],
       nn_grad := [[[16 * sqrt 2, 0], [0, 0]], [[193 / 6], [0]]]\<rparr>,
     ag_U := ridge_plus_const 1 6 80, ag_t := 2, ag_np_random := 4\<rparr>"

text \<open>Round 3, contexts \<open>[0, 0]\<close> and \<open>[1, 0]\<close>: both predictions are 0, arm 0; reward 0.\<close>

definition quiet_agent5 :: "(nat, nat) agent" where
  "quiet_agent5 = quiet_agent4\<lparr>ag_random_generator := 6\<rparr>"

definition quiet_agent6 :: "(nat, nat) agent" where
  "quiet_agent6 = quiet_agent5\<lparr>ag_U := ridge_plus_const 1 6 (61441 / 72), ag_t := 3\<rparr>"

text \<open>
  When other code has drawn once from numpy's generator before the \<^verbatim>\<open>Update\<close> of round 2,
  the state is 4: the shuffle gives the order \<open>[1, 0]\<close>, the step on \<open>([2, 0], 0)\<close> comes
  first and changes nothing, and the step on \<open>([1, 0], 1)\<close> leaves the first hidden unit
  active.
\<close>

definition noisy_agent4 :: "(nat, nat) agent" where
  "noisy_agent4 = greedy_agent3\<lparr>
     ag_mynn := greedy_network\<lparr>
       nn_W := [[[sqrt 2, 0], [0, sqrt 2]], [[1], [0]]],
       nn_grad := [[[0, 0], [0, 0]], [[- 4], [0]]]\<rparr>,
     ag_U := ridge_plus_const 1 6 80, ag_t := 2, ag_np_random := 5\<rparr>"

text \<open>Round 3, the same contexts: the prediction for \<open>[1, 0]\<close> is 2, arm 1; reward 0.\<close>

definition noisy_agent5 :: "(nat, nat) agent" where
  "noisy_agent5 = noisy_agent4\<lparr>ag_random_generator := 6,
     ag_mynn := greedy_network\<lparr>
       nn_W := [[[sqrt 2, 0], [0, sqrt 2]], [[1], [0]]],
       nn_grad := [[[sqrt 2, 0], [0, 0]], [[- 2], [0]]]\<rparr>,
     ag_history_action := [0, 0, 1], ag_predicted_reward := [0, 0, 2],
     ag_history_context := [[1, 0], [2, 0], [1, 0]]\<rparr>"

definition noisy_agent6 :: "(nat, nat) agent" where
  "noisy_agent6 = noisy_agent5\<lparr>
     ag_mynn := greedy_network\<lparr>
       nn_W := [[[sqrt 2, 0], [0, sqrt 2]], [[1], [0]]],
       nn_grad := [[[2 * sqrt 2, 0], [0, 0]], [[0], [0]]]\<rparr>,
     ag_U := ridge_plus_const 1 6 84, ag_t := 3\<rparr>"

section \<open>Proofs\<close>

subsection \<open>Sums\<close>

lemma sum_list_upt: "(\<Sum>i\<leftarrow>[0..<n]. f i) = (\<Sum>i<n. f i)"
  by (simp add: interv_sum_list_conv_sum_set_nat atLeast0LessThan)

lemma sum_split_add:
  fixes f :: "nat \<Rightarrow> real"
  shows "(\<Sum>i<a + b. f i) = (\<Sum>i<a. f i) + (\<Sum>i<b. f (i + a))"
  by (induction b) (simp_all add: add.commute)

lemma sum_halves:
  fixes f :: "nat \<Rightarrow> real"
  assumes "even k"
  shows "(\<Sum>i<k. f i) = (\<Sum>i<k div 2. f i) + (\<Sum>i<k div 2. f (i + k div 2))"
proof -
  have "k = k div 2 + k div 2" using assms by (auto elim!: evenE)
  then show ?thesis using sum_split_add[of f "k div 2" "k div 2"] by simp
qed

subsection \<open>Loops with errors\<close>

lemma collect_all_Inr: "(\<And>x. x \<in> set xs \<Longrightarrow> f x = Inr (h x)) \<Longrightarrow> collect f xs = Inr (map h xs)"
  by (induction xs) simp_all

lemma fold_err_invariant:
  assumes "fold_err f xs s = Inr s'" "P s" "\<And>s x s'. P s \<Longrightarrow> f s x = Inr s' \<Longrightarrow> P s'"
  shows "P s'"
  using assms(1,2)
proof (induction xs arbitrary: s)
  case Nil
  then show ?case by simp
next
  case (Cons x xs)
  then show ?case using assms(3) by (auto split: sum.splits)
qed

lemma fold_err_all:
  assumes "fold_err f xs s = Inr s'" "P s"
    "\<And>s x s'. P s \<Longrightarrow> f s x = Inr s' \<Longrightarrow> P s' \<and> Q x"
  shows "P s' \<and> (\<forall>x \<in> set xs. Q x)"
  using assms(1,2)
proof (induction xs arbitrary: s)
  case Nil
  then show ?case by simp
next
  case (Cons x xs)
  from Cons.prems(1) obtain s1 where 1: "f s x = Inr s1" and 2: "fold_err f xs s1 = Inr s'"
    by (auto split: sum.splits)
  from assms(3)[OF Cons.prems(2) 1] Cons.IH[OF 2] show ?case by simp
qed

lemma fold_err_ok:
  assumes "P s" "\<And>s x. P s \<Longrightarrow> x \<in> set xs \<Longrightarrow> \<exists>s'. f s x = Inr s' \<and> P s'"
  shows "\<exists>s'. fold_err f xs s = Inr s' \<and> P s'"
  using assms
proof (induction xs arbitrary: s)
  case Nil
  then show ?case by simp
next
  case (Cons x xs)
  from Cons.prems(2)[OF Cons.prems(1), of x] obtain s1 where 1: "f s x = Inr s1" "P s1" by auto
  from Cons.IH[OF 1(2)] Cons.prems(2) obtain s' where "fold_err f xs s1 = Inr s'" "P s'" by auto
  then show ?case using 1 by simp
qed

lemma fold_err_append:
  "fold_err f (xs @ ys) s = (case fold_err f xs s of Inl e \<Rightarrow> Inl e | Inr s1 \<Rightarrow> fold_err f ys s1)"
  by (induction xs arbitrary: s) (simp_all split: sum.splits)

lemma fold_err_upt_chain:
  assumes "fold_err f [0..<n] s0 = Inr s'"
  shows "\<exists>sts. length sts = n + 1 \<and> sts ! 0 = s0 \<and> sts ! n = s' \<and>
           (\<forall>j<n. f (sts ! j) j = Inr (sts ! (j + 1)))"
  using assms
proof (induction n arbitrary: s')
  case 0
  then show ?case by (intro exI[of _ "[s0]"]) simp
next
  case (Suc n)
  from Suc.prems obtain s1 where 1: "fold_err f [0..<n] s0 = Inr s1" and 2: "f s1 n = Inr s'"
    by (auto simp: fold_err_append split: sum.splits)
  from Suc.IH[OF 1] obtain sts where sts: "length sts = n + 1" "sts ! 0 = s0" "sts ! n = s1"
    "\<forall>j<n. f (sts ! j) j = Inr (sts ! (j + 1))" by blast
  show ?case
  proof (intro exI[of _ "sts @ [s']"] conjI allI impI)
    fix j assume "j < Suc n"
    then show "f ((sts @ [s']) ! j) j = Inr ((sts @ [s']) ! (j + 1))"
      using sts 2 by (cases "j = n") (auto simp: nth_append less_Suc_eq)
  qed (use sts in \<open>auto simp: nth_append\<close>)
qed

subsection \<open>The example run, evaluated\<close>

lemmas model_defs =
  NeuralAgent_init_def NeuralNetwork_init_def build_layer_def set_block_def zeros_def
  scale_mat_def column_def layer_shape_def forward_def matmul_def relu_def eye_def GetGrad_def
  out_width_def matmul_tn_def matmul_nt_def mat_map2_def relu_grad_def linalg_inv_def vec_mat_def
  dot_def argmax_def Action_def Action_arm_def Update_def retrain_def train_epoch_def
  train_batch_def sgd_step_def shuffle_def

lemmas example_defs =
  example_ops_def example_config_def example_network_def example_contexts_def
  example_agent0_def example_agent1_def example_agent2_def example_agent3_def

lemma example_network_init:
  "NeuralNetwork_init example_ops 7 2 2 2 12345 = Inr (example_network, 3)"
  by (simp add: model_defs example_defs upt_conv_Cons Let_def eval_nat_numeral)

lemma example_init: "NeuralAgent_init example_ops 7 example_config = Inr example_agent0"
  by (simp add: model_defs example_defs upt_conv_Cons Let_def eval_nat_numeral)

lemma example_Action: "Action example_ops example_agent0 example_contexts = Inr (1, example_agent1)"
  by (simp add: model_defs example_defs upt_conv_Cons Let_def eval_nat_numeral)

lemma example_Update: "Update example_ops example_agent1 1 = Inr example_agent2"
  by (simp add: model_defs example_defs upt_conv_Cons Let_def eval_nat_numeral)

lemma example_Update_again: "Update example_ops example_agent2 (1 / 2) = Inr example_agent3"
  by (simp add: model_defs example_defs upt_conv_Cons Let_def eval_nat_numeral)

lemma example_rounds:
  "rounds example_ops example_agent0 [(example_contexts, 1)] = Inr ([1], example_agent2)"
  by (simp add: example_Action example_Update)

subsection \<open>The other runs, evaluated\<close>

lemma randn_numeral: "randn ops g (numeral k) = randn ops g (Suc (pred_numeral k))"
  by (simp add: numeral_eq_Suc)

lemma randn2_numeral: "randn2 ops g (numeral k) c = randn2 ops g (Suc (pred_numeral k)) c"
  by (simp add: numeral_eq_Suc)

lemma shuffle_from_numeral:
  "shuffle_from ops (numeral k) g xs = shuffle_from ops (Suc (pred_numeral k)) g xs"
  by (simp add: numeral_eq_Suc)

lemma replicate_numeral: "replicate (numeral k) x = x # replicate (pred_numeral k) x"
  by (simp add: numeral_eq_Suc)

lemma list_update_numeral: "(x # xs)[numeral k := v] = x # xs[pred_numeral k := v]"
  by (simp add: numeral_eq_Suc)

lemma sqrt2_twice: "a * sqrt 2 * sqrt 2 = a * 2" "sqrt 2 * (a * sqrt 2) = a * 2"
  by simp_all

lemmas numeral_defs =
  randn_numeral randn2_numeral shuffle_from_numeral replicate_numeral list_update_numeral
  ridge_plus_const_def sqrt2_twice






lemmas greedy_defs =
  sparse_ops_def greedy_config_def greedy_network_def greedy_agent0_def greedy_agent1_def
  greedy_agent2_def greedy_agent3_def quiet_agent4_def quiet_agent5_def quiet_agent6_def
  noisy_agent4_def noisy_agent5_def noisy_agent6_def

lemma greedy_init: "NeuralAgent_init sparse_ops 7 greedy_config = Inr greedy_agent0"
  by (simp add: model_defs greedy_defs numeral_defs upt_conv_Cons Let_def)

lemma greedy_Action1:
  "Action sparse_ops greedy_agent0 [[1, 0], [- 1, 0]] = Inr (0, greedy_agent1)"
  by (simp add: model_defs greedy_defs numeral_defs upt_conv_Cons Let_def)

lemma greedy_Update1: "Update sparse_ops greedy_agent1 1 = Inr greedy_agent2"
  by (simp add: model_defs greedy_defs numeral_defs upt_conv_Cons Let_def)

lemma greedy_Action2:
  "Action sparse_ops greedy_agent2 [[2, 0], [- 1, 0]] = Inr (0, greedy_agent3)"
  by (simp add: model_defs greedy_defs numeral_defs upt_conv_Cons Let_def)

lemma quiet_Update2: "Update sparse_ops greedy_agent3 0 = Inr quiet_agent4"
  by (simp add: model_defs greedy_defs numeral_defs upt_conv_Cons Let_def)

lemma noisy_Update2:
  "Update sparse_ops (greedy_agent3\<lparr>ag_np_random := 4\<rparr>) 0 = Inr noisy_agent4"
  by (simp add: model_defs greedy_defs numeral_defs upt_conv_Cons Let_def)

lemma quiet_Action3:
  "Action sparse_ops quiet_agent4 [[0, 0], [1, 0]] = Inr (0, quiet_agent5)"
  by (simp add: model_defs greedy_defs numeral_defs upt_conv_Cons Let_def)

lemma noisy_Action3:
  "Action sparse_ops noisy_agent4 [[0, 0], [1, 0]] = Inr (1, noisy_agent5)"
  by (simp add: model_defs greedy_defs numeral_defs upt_conv_Cons Let_def)

lemma quiet_Update3: "Update sparse_ops quiet_agent5 0 = Inr quiet_agent6"
  by (simp add: model_defs greedy_defs numeral_defs upt_conv_Cons Let_def)

lemma noisy_Update3: "Update sparse_ops noisy_agent5 0 = Inr noisy_agent6"
  by (simp add: model_defs greedy_defs numeral_defs upt_conv_Cons Let_def)

lemma greedy_generator:
  "ag_np_random greedy_agent1 = 3" "ag_np_random greedy_agent3 = 3"
  "ag_np_random quiet_agent5 = 4" "ag_np_random noisy_agent5 = 5"
  "snd (np_standard_normal sparse_ops 3) = 4"
  by (simp_all add: greedy_defs)

lemma agent_generator_same: "ag_np_random s = g \<Longrightarrow> s\<lparr>ag_np_random := g\<rparr> = s"
  by auto

lemma quiet_run:
  "run_shared sparse_ops 7 greedy_config
     [([[1, 0], [- 1, 0]], 1, id), ([[2, 0], [- 1, 0]], 0, id), ([[0, 0], [1, 0]], 0, id)]
   = Inr ([0, 0, 0], quiet_agent6)"
  by (simp add: run_shared_def greedy_init greedy_Action1 greedy_Update1 greedy_Action2
        quiet_Update2 quiet_Action3 quiet_Update3 greedy_generator agent_generator_same)

lemma noisy_run:
  "run_shared sparse_ops 7 greedy_config
     [([[1, 0], [- 1, 0]], 1, id),
      ([[2, 0], [- 1, 0]], 0, \<lambda>g. snd (np_standard_normal sparse_ops g)),
      ([[0, 0], [1, 0]], 0, id)]
   = Inr ([0, 0, 1], noisy_agent6)"
  by (simp add: run_shared_def greedy_init greedy_Action1 greedy_Update1 greedy_Action2
        noisy_Update2 noisy_Action3 noisy_Update3 greedy_generator agent_generator_same)

subsection \<open>The initial network\<close>

lemma set_block_exact:
  "set_block (R, C) (r0, r1) (c0, c1) B (r1 - r0, c1 - c0) Wm =
     Inr (map (\<lambda>i. map (\<lambda>j. if r0 \<le> i \<and> i < r1 \<and> c0 \<le> j \<and> j < c1
                              then B ! (i - r0) ! (j - c0) else Wm ! i ! j) [0..<C]) [0..<R])"
proof -
  have r: "x - r0 = 0" if "r0 \<le> x" "x < r1" "r1 - r0 = Suc 0" for x
    using that by linarith
  have c: "x - c0 = 0" if "c0 \<le> x" "x < c1" "c1 - c0 = Suc 0" for x
    using that by linarith
  show ?thesis
    unfolding set_block_def by (auto simp: r c)
qed

lemma set_block_diag:
  assumes "even k" "even n"
  shows "(case set_block (k, n) (0, k div 2) (0, n div 2) B (k div 2, n div 2) (zeros k n) of
           Inl e \<Rightarrow> Inl e
         | Inr W1 \<Rightarrow> set_block (k, n) (k div 2, k) (n div 2, n) B (k div 2, n div 2) W1)
         = Inr (block_diag k n B)"
proof -
  have k: "k div 2 = k - k div 2" and n: "n div 2 = n - n div 2"
    using assms by (auto elim!: evenE)
  have 1: "set_block (k, n) (0, k div 2) (0, n div 2) B (k div 2, n div 2) (zeros k n)
     = Inr (map (\<lambda>i. map (\<lambda>j. if i < k div 2 \<and> j < n div 2 then B ! i ! j else 0) [0..<n]) [0..<k])"
    using set_block_exact[of k n 0 "k div 2" 0 "n div 2" B "zeros k n"]
    by (simp add: zeros_def cong: if_cong)
  have 2: "set_block (k, n) (k div 2, k) (n div 2, n) B (k div 2, n div 2) Wm
     = Inr (map (\<lambda>i. map (\<lambda>j. if k div 2 \<le> i \<and> i < k \<and> n div 2 \<le> j \<and> j < n
                              then B ! (i - k div 2) ! (j - n div 2) else Wm ! i ! j) [0..<n]) [0..<k])" for Wm
    using set_block_exact[of k n "k div 2" k "n div 2" n B Wm] k n by simp
  show ?thesis
    unfolding 1 sum.case 2 block_diag_def by auto
qed

lemma set_block_column:
  assumes "even m" "length v = m div 2"
  shows "(case set_block (m, 1) (0, m div 2) (0, 1) (column v) (m div 2, 1) (zeros m 1) of
           Inl e \<Rightarrow> Inl e
         | Inr W1 \<Rightarrow> set_block (m, 1) (m div 2, m) (0, 1) (column (map uminus v)) (m div 2, 1) W1)
         = Inr (antisym_column m v)"
proof -
  have m: "m div 2 = m - m div 2" and m2: "m div 2 + m div 2 = m"
    using assms by (auto elim!: evenE)
  have 1: "set_block (m, 1) (0, m div 2) (0, 1) (column v) (m div 2, 1) (zeros m 1)
     = Inr (map (\<lambda>i. map (\<lambda>j. if i < m div 2 \<and> j < 1 then column v ! i ! j else 0) [0..<1]) [0..<m])"
    using set_block_exact[of m 1 0 "m div 2" 0 1 "column v" "zeros m 1"]
    by (simp add: zeros_def cong: if_cong)
  have 2: "set_block (m, 1) (m div 2, m) (0, 1) B (m div 2, 1) Wm
     = Inr (map (\<lambda>i. map (\<lambda>j. if m div 2 \<le> i \<and> i < m \<and> 0 \<le> j \<and> j < 1
                              then B ! (i - m div 2) ! (j - 0) else Wm ! i ! j) [0..<1]) [0..<m])" for B Wm
    using set_block_exact[of m 1 "m div 2" m 0 1 B Wm] m by simp
  have 3: "i - m div 2 < m div 2" if "i < m" for i using that m2 by linarith
  show ?thesis
    unfolding 1 sum.case 2 antisym_column_def
    using assms(2) by (auto simp: column_def 3)
qed

lemma length_randn: "length (fst (randn ops g n)) = n"
  by (induction n arbitrary: g) (simp_all add: split_beta Let_def)

lemma build_layer_even:
  assumes "even d" "even m" "length wL = m div 2"
  shows "build_layer d m L w1 w2 wL l = Inr (init_layer d m L w1 w2 wL l)"
  unfolding build_layer_def init_layer_def
  using set_block_diag[OF assms(1,2)] set_block_diag[OF assms(2,2)] set_block_column[OF assms(2,3)]
  by simp

lemma NeuralNetwork_init_even:
  assumes "even d" "even m" "0 < m" "0 \<le> seed" "seed < 2 ^ 32"
  shows "\<exists>w1 w2 wL g'. NeuralNetwork_init ops g d L m seed =
           Inr (\<lparr>nn_d = d, nn_L = L, nn_m = m, nn_random_seed = seed,
                 nn_W = map (init_layer d m L w1 w2 wL) [1..<L + 1],
                 nn_W0 = map (init_layer d m L w1 w2 wL) [1..<L + 1],
                 nn_grad = map (\<lambda>l. case layer_shape d m L l of (k, n) \<Rightarrow> zeros k n) [1..<L + 1]\<rparr>, g')"
proof -
  obtain z1 g1 where z1: "randn2 ops (np_seed ops seed) (d div 2) (m div 2) = (z1, g1)" by force
  obtain z2 g2 where z2: "randn2 ops g1 (m div 2) (m div 2) = (z2, g2)" by force
  obtain z3 g3 where z3: "randn ops g2 (m div 2) = (z3, g3)" by force
  have len: "length (map (\<lambda>v. v * sqrt (2 / real m)) z3) = m div 2"
    using length_randn[of ops g2 "m div 2"] z3 by simp
  show ?thesis
    apply (rule exI[of _ "scale_mat (sqrt (4 / real m)) z1"])
    apply (rule exI[of _ "scale_mat (sqrt (4 / real m)) z2"])
    apply (rule exI[of _ "map (\<lambda>v. v * sqrt (2 / real m)) z3"])
    apply (rule exI[of _ g3])
    unfolding NeuralNetwork_init_def
    using assms(3,4,5)
    by (simp add: z1 z2 z3 Let_def collect_all_Inr[OF build_layer_even[OF assms(1,2) len]])
qed

lemma NeuralNetwork_init_seed:
  "NeuralNetwork_init ops g d L m seed = Inr (nn, g') \<Longrightarrow> 0 \<le> seed \<and> seed < 2 ^ 32"
  by (auto simp: NeuralNetwork_init_def split: if_splits)

lemma NeuralNetwork_init_m: "NeuralNetwork_init ops g d L m seed = Inr (nn, g') \<Longrightarrow> 0 < m"
  by (auto simp: NeuralNetwork_init_def Let_def split: prod.splits if_splits)

lemma forward_layers_append:
  "forward_layers d m L Ws (ls @ ls') X = forward_layers d m L Ws ls' (forward_layers d m L Ws ls X)"
  by (induction ls arbitrary: X) (simp_all add: Let_def)

lemma length_forward_layers: "length (forward_layers d m L Ws ls X) = length X"
  by (induction ls arbitrary: X) (simp_all add: Let_def matmul_def split: prod.splits)

lemma matmul_block_diag_row:
  assumes "even k" "even n" "halves_equal k row"
  shows "halves_equal n (map (\<lambda>j. (\<Sum>i\<leftarrow>[0..<k]. row ! i * block_diag k n B ! i ! j)) [0..<n])"
proof -
  have k2: "k = k div 2 + k div 2" and n2: "n = n div 2 + n div 2"
    using assms by (auto elim!: evenE)
  have row: "\<And>i. i < k div 2 \<Longrightarrow> row ! (i + k div 2) = row ! i"
    using assms(3) by (simp add: halves_equal_def)
  have lo: "(\<Sum>i<k. row ! i * block_diag k n B ! i ! j) = (\<Sum>i<k div 2. row ! i * B ! i ! j)"
    if "j < n div 2" for j
  proof -
    have j: "j < n" using that n2 by linarith
    have "(\<Sum>i<k. row ! i * block_diag k n B ! i ! j)
        = (\<Sum>i<k div 2. row ! i * block_diag k n B ! i ! j)
          + (\<Sum>i<k div 2. row ! (i + k div 2) * block_diag k n B ! (i + k div 2) ! j)"
      by (rule sum_halves[OF assms(1)])
    also have "(\<Sum>i<k div 2. row ! i * block_diag k n B ! i ! j) = (\<Sum>i<k div 2. row ! i * B ! i ! j)"
      using j that k2 by (intro sum.cong) (auto simp: block_diag_def)
    also have "(\<Sum>i<k div 2. row ! (i + k div 2) * block_diag k n B ! (i + k div 2) ! j) = 0"
      using j that k2 by (intro sum.neutral) (auto simp: block_diag_def)
    finally show ?thesis by simp
  qed
  have hi: "(\<Sum>i<k. row ! i * block_diag k n B ! i ! (j + n div 2)) = (\<Sum>i<k div 2. row ! i * B ! i ! j)"
    if "j < n div 2" for j
  proof -
    have j: "j + n div 2 < n" using that n2 by linarith
    have "(\<Sum>i<k. row ! i * block_diag k n B ! i ! (j + n div 2))
        = (\<Sum>i<k div 2. row ! i * block_diag k n B ! i ! (j + n div 2))
          + (\<Sum>i<k div 2. row ! (i + k div 2) * block_diag k n B ! (i + k div 2) ! (j + n div 2))"
      by (rule sum_halves[OF assms(1)])
    also have "(\<Sum>i<k div 2. row ! i * block_diag k n B ! i ! (j + n div 2)) = 0"
      using j that k2 by (intro sum.neutral) (auto simp: block_diag_def)
    also have "(\<Sum>i<k div 2. row ! (i + k div 2) * block_diag k n B ! (i + k div 2) ! (j + n div 2))
        = (\<Sum>i<k div 2. row ! i * B ! i ! j)"
      using j that k2 by (intro sum.cong) (auto simp: block_diag_def row)
    finally show ?thesis by simp
  qed
  show ?thesis
    unfolding halves_equal_def
  proof (intro conjI allI impI)
    fix j assume "j < n div 2"
    then have "j < n" "j + n div 2 < n" using n2 by linarith+
    then show "map (\<lambda>j. \<Sum>i\<leftarrow>[0..<k]. row ! i * block_diag k n B ! i ! j) [0..<n] ! (j + n div 2)
       = map (\<lambda>j. \<Sum>i\<leftarrow>[0..<k]. row ! i * block_diag k n B ! i ! j) [0..<n] ! j"
      using lo[OF \<open>j < n div 2\<close>] hi[OF \<open>j < n div 2\<close>] by (simp add: sum_list_upt)
  qed simp
qed

lemma matmul_block_diag:
  assumes "even k" "even n" "\<forall>row \<in> set X. halves_equal k row"
  shows "\<forall>row \<in> set (matmul k n X (block_diag k n B)). halves_equal n row"
  using assms by (auto simp: matmul_def intro!: matmul_block_diag_row)

lemma halves_equal_relu: "halves_equal n v \<Longrightarrow> halves_equal n (map relu v)"
proof -
  assume h: "halves_equal n v"
  have "j + n div 2 < n" if "j < n div 2" for j using that by linarith
  then show ?thesis using h by (auto simp: halves_equal_def)
qed

lemma middle_layers:
  assumes "even m" "\<forall>l \<in> set ls. l \<noteq> 1 \<and> l \<noteq> L \<and> Ws ! (l - 1) = block_diag m m B"
    "\<forall>row \<in> set X. halves_equal m row"
  shows "\<forall>row \<in> set (forward_layers d m L Ws ls X). halves_equal m row"
  using assms(2,3)
proof (induction ls arbitrary: X)
  case Nil
  then show ?case by simp
next
  case (Cons l ls)
  have "\<forall>row \<in> set (map (map relu) (matmul m m X (block_diag m m B))). halves_equal m row"
    using matmul_block_diag[OF assms(1,1) Cons.prems(2), of B] by (auto intro: halves_equal_relu)
  from Cons.IH[OF _ this] Cons.prems(1)
  show ?case by (simp add: layer_shape_def Let_def)
qed

lemma antisym_row:
  assumes "even m" "halves_equal m row"
  shows "(\<Sum>i\<leftarrow>[0..<m]. row ! i * antisym_column m v ! i ! 0) = 0"
proof -
  have m2: "m div 2 + m div 2 = m" using assms by (auto elim!: evenE)
  have row: "\<And>i. i < m div 2 \<Longrightarrow> row ! (i + m div 2) = row ! i"
    using assms(2) by (simp add: halves_equal_def)
  have "(\<Sum>i<m. row ! i * antisym_column m v ! i ! 0)
      = (\<Sum>i<m div 2. row ! i * antisym_column m v ! i ! 0)
        + (\<Sum>i<m div 2. row ! (i + m div 2) * antisym_column m v ! (i + m div 2) ! 0)"
    by (rule sum_halves[OF assms(1)])
  also have "(\<Sum>i<m div 2. row ! i * antisym_column m v ! i ! 0) = (\<Sum>i<m div 2. row ! i * v ! i)"
    using m2 by (intro sum.cong) (auto simp: antisym_column_def)
  also have "(\<Sum>i<m div 2. row ! (i + m div 2) * antisym_column m v ! (i + m div 2) ! 0)
      = (\<Sum>i<m div 2. - (row ! i * v ! i))"
    using m2 by (intro sum.cong) (auto simp: antisym_column_def row)
  finally show ?thesis by (simp add: sum_list_upt sum_negf)
qed

lemma upt_layers: "2 \<le> L \<Longrightarrow> [1..<L + 1] = 1 # [2..<L] @ [L]"
  by (metis Suc_1 Suc_eq_plus1 Suc_le_lessD le_imp_less_Suc less_imp_le_nat upt_Suc_append upt_conv_Cons one_less_numeral_iff semiring_norm(76) less_le_trans)

lemma forward_initial_layers_zero:
  assumes "even d" "even m" "2 \<le> L" "halves_equal d x"
  shows "forward_layers d m L (map (init_layer d m L w1 w2 wL) [1..<L + 1]) [1..<L + 1] [x] = [[0]]"
proof -
  define Ws where "Ws = map (init_layer d m L w1 w2 wL) [1..<L + 1]"
  have W: "Ws ! (l - 1) = init_layer d m L w1 w2 wL l" if "1 \<le> l" "l \<le> L" for l
    using that by (simp add: Ws_def nth_map_upt del: upt_Suc)
  have W1: "Ws ! (1 - 1) = block_diag d m w1"
    using W[of 1] assms(3) by (simp add: init_layer_def)
  have WL: "Ws ! (L - 1) = antisym_column m wL"
    using W[of L] assms(3) by (simp add: init_layer_def)
  define X1 where "X1 = map (map relu) (matmul d m [x] (block_diag d m w1))"
  have first: "\<forall>row \<in> set X1. halves_equal m row"
    unfolding X1_def
    using matmul_block_diag[OF assms(1,2), of "[x]" w1] assms(4) by (auto intro: halves_equal_relu)
  have mid: "\<forall>l \<in> set [2..<L]. l \<noteq> 1 \<and> l \<noteq> L \<and> Ws ! (l - 1) = block_diag m m w2"
    using W by (auto simp: init_layer_def)
  define Y where "Y = forward_layers d m L Ws [2..<L] X1"
  have Y: "\<forall>row \<in> set Y. halves_equal m row"
    unfolding Y_def by (rule middle_layers[OF assms(2) mid first])
  have lenY: "length Y = 1"
    unfolding Y_def X1_def by (simp add: length_forward_layers matmul_def)
  then obtain y where y: "Y = [y]" by (cases Y) auto
  have hy: "halves_equal m y" using Y y by simp
  have s1: "forward_layers d m L Ws [1] [x] = X1"
    using assms(3) unfolding X1_def forward_layers.simps layer_shape_def W1 by (simp add: Let_def)
  have s2: "forward_layers d m L Ws [L] Y = matmul m 1 Y (antisym_column m wL)"
    using assms(3) unfolding forward_layers.simps layer_shape_def WL by (simp add: Let_def)
  have "forward_layers d m L Ws [1..<L + 1] [x] = forward_layers d m L Ws ([1] @ [2..<L] @ [L]) [x]"
    using upt_layers[OF assms(3)] by simp
  also have "\<dots> = forward_layers d m L Ws [L] Y"
    unfolding forward_layers_append s1 Y_def ..
  also have "\<dots> = [[0]]"
    unfolding s2 using antisym_row[OF assms(2) hy, of wL] by (simp add: matmul_def y)
  finally show ?thesis unfolding Ws_def .
qed

text \<open>
  C1, as the code has it. For even \<open>d\<close> and \<open>m\<close>, \<open>m > 0\<close>, \<open>L \<ge> 2\<close> and a seed that
  \<^verbatim>\<open>np.random.seed\<close> accepts (\<open>0 \<le> seed < 2\<^sup>3\<^sup>2\<close>) the constructor returns a network, and
  \<^verbatim>\<open>forward\<close> at these initial weights returns exactly 0 on every input of length \<open>d\<close>
  whose second half repeats its first half.
\<close>

theorem forward_initial_zero:
  assumes "even d" "even m" "0 < m" "2 \<le> L" "0 \<le> seed" "seed < 2 ^ 32"
  shows "\<exists>nn g'. NeuralNetwork_init ops g d L m seed = Inr (nn, g') \<and>
           (\<forall>x. length x = d \<and> (\<forall>j < d div 2. x ! (j + d div 2) = x ! j) \<longrightarrow>
                forward nn (Vec x) = Inr [[0]])"
proof -
  obtain w1 w2 wL g' where
    init: "NeuralNetwork_init ops g d L m seed =
           Inr (\<lparr>nn_d = d, nn_L = L, nn_m = m, nn_random_seed = seed,
                 nn_W = map (init_layer d m L w1 w2 wL) [1..<L + 1],
                 nn_W0 = map (init_layer d m L w1 w2 wL) [1..<L + 1],
                 nn_grad = map (\<lambda>l. case layer_shape d m L l of (k, n) \<Rightarrow> zeros k n) [1..<L + 1]\<rparr>, g')"
    using NeuralNetwork_init_even[OF assms(1,2,3,5,6), of ops g L] by (elim exE)
  show ?thesis
    unfolding init
    using forward_initial_layers_zero[OF assms(1,2,4), of _ w1 w2 wL]
    by (simp add: forward_def halves_equal_def del: upt_Suc)
qed

theorem forward_initial_zero_witness:
  "even (2::nat) \<and> 0 < (2::nat) \<and> (2::nat) \<le> 2 \<and> (0::int) \<le> 12345 \<and> (12345::int) < 2 ^ 32 \<and>
   NeuralNetwork_init example_ops 7 2 2 2 12345 = Inr (example_network, 3) \<and>
   length [1, 1::real] = 2 \<and> [1, 1::real] ! (0 + 2 div 2) = [1, 1] ! 0 \<and>
   forward example_network (Vec [1, 1]) = Inr [[0]]"
proof -
  obtain nn g' where
    i: "NeuralNetwork_init example_ops 7 2 2 2 12345 = Inr (nn, g')"
    and z: "\<forall>x. length x = 2 \<and> (\<forall>j < (2::nat) div 2. x ! (j + 2 div 2) = x ! j) \<longrightarrow>
              forward nn (Vec x) = Inr [[0]]"
    using forward_initial_zero[of 2 2 2 12345 example_ops 7] by auto
  have nn: "nn = example_network" using i by (simp add: example_network_init)
  have h: "\<forall>j < (2::nat) div 2. [1, 1::real] ! (j + 2 div 2) = [1, 1] ! j" by simp
  show ?thesis using z[rule_format, of "[1, 1]"] h by (simp add: nn example_network_init)
qed

text \<open>
  C1 as stated fails: on the input \<open>[1, 0]\<close>, whose halves differ, the initial network of
  the example returns 2.
\<close>

theorem forward_initial_nonzero_counterexample:
  "NeuralNetwork_init example_ops 7 2 2 2 12345 = Inr (example_network, 3) \<and>
   length [1, 0::real] = 2 \<and>
   forward example_network (Vec [1, 0]) = Inr [[2]] \<and>
   forward example_network (Vec [1, 0]) \<noteq> Inr [[0]]"
  by (simp add: example_network_init)
     (simp add: model_defs example_defs upt_conv_Cons Let_def eval_nat_numeral)

subsection \<open>One-dimensional inputs\<close>

lemma forward_Vec: "forward nn (Vec x) = forward nn (Mat [x])"
  by (simp add: forward_def)

lemma forward_layers_last:
  assumes "2 \<le> L"
  shows "\<exists>y. forward_layers d m L Ws [1..<L + 1] [x] = [[y]]"
proof -
  have u: "[1..<L + 1] = [1..<L] @ [L]" using assms by simp
  define Y where "Y = forward_layers d m L Ws [1..<L] [x]"
  have "length Y = 1" unfolding Y_def by (simp add: length_forward_layers)
  then obtain y where y: "Y = [y]" by (cases Y) auto
  have "forward_layers d m L Ws [1..<L + 1] [x] = forward_layers d m L Ws [L] Y"
    unfolding u forward_layers_append Y_def ..
  also have "\<dots> = matmul m 1 Y (Ws ! (L - 1))"
    using assms by (simp add: layer_shape_def Let_def)
  finally show ?thesis by (simp add: matmul_def y)
qed

text \<open>
  C10, as the code has it. On a one-dimensional input \<^verbatim>\<open>forward\<close> returns what it returns on
  the one-row matrix. For a network with at least two layers and an input of length \<open>d\<close>
  the result has shape \<open>(1, 1)\<close>: its entry is the entry \<open>y\<close> that the loop over the layers
  leaves, scaled by \<open>\<surd>m\<close>.
\<close>

theorem forward_one_dimensional:
  "forward nn (Vec x) = forward nn (Mat [x]) \<and>
   (2 \<le> nn_L nn \<and> length x = nn_d nn \<longrightarrow>
      (\<exists>y. forward_layers (nn_d nn) (nn_m nn) (nn_L nn) (nn_W nn) [1..<nn_L nn + 1] [x] = [[y]] \<and>
           forward nn (Vec x) = Inr [[y * sqrt (real (nn_m nn))]]))"
proof (intro conjI impI)
  show "forward nn (Vec x) = forward nn (Mat [x])" by (rule forward_Vec)
next
  assume a: "2 \<le> nn_L nn \<and> length x = nn_d nn"
  then obtain y where
    y: "forward_layers (nn_d nn) (nn_m nn) (nn_L nn) (nn_W nn) [1..<nn_L nn + 1] [x] = [[y]]"
    using forward_layers_last[of "nn_L nn"] by blast
  show "\<exists>y. forward_layers (nn_d nn) (nn_m nn) (nn_L nn) (nn_W nn) [1..<nn_L nn + 1] [x] = [[y]] \<and>
           forward nn (Vec x) = Inr [[y * sqrt (real (nn_m nn))]]"
    using a y by (intro exI[of _ y]) (simp add: forward_def)
qed

theorem forward_one_dimensional_witness:
  "2 \<le> nn_L example_network \<and> length [1, 0::real] = nn_d example_network \<and>
   forward example_network (Vec [1, 0]) = forward example_network (Mat [[1, 0]]) \<and>
   (\<exists>y. forward_layers (nn_d example_network) (nn_m example_network) (nn_L example_network)
           (nn_W example_network) [1..<nn_L example_network + 1] [[1, 0]] = [[y]] \<and>
        forward example_network (Vec [1, 0]) = Inr [[y * sqrt (real (nn_m example_network))]])"
proof -
  have h: "2 \<le> nn_L example_network \<and> length [1, 0::real] = nn_d example_network"
    by (simp add: example_network_def)
  show ?thesis using forward_one_dimensional[of example_network "[1, 0]"] h by blast
qed

text \<open>
  C10 as stated fails: the constructor accepts \<open>L = 1\<close>, and the single layer it builds has
  \<open>m\<close> columns, so that \<^verbatim>\<open>forward\<close> on the input \<open>[1, 0]\<close> returns the \<open>1 \<times> 2\<close> array
  \<open>[[2, 0]]\<close>.
\<close>

theorem forward_one_layer_counterexample:
  "NeuralNetwork_init example_ops 7 2 1 2 12345 = Inr (one_layer_network, 3) \<and>
   length [1, 0::real] = nn_d one_layer_network \<and>
   forward one_layer_network (Vec [1, 0]) = Inr [[2, 0]] \<and>
   forward one_layer_network (Mat [[1, 0]]) = Inr [[2, 0]] \<and>
   (\<forall>y. forward one_layer_network (Vec [1, 0]) \<noteq> Inr [[y]])"
  by (simp add: model_defs example_defs one_layer_network_def upt_conv_Cons Let_def
        eval_nat_numeral)

subsection \<open>The chosen arm\<close>

lemma argmax_from_correct:
  assumes "xs = drop i ys" "b < i" "ys ! b = v" "i \<le> length ys"
    "\<forall>j<i. ys ! j \<le> v" "\<forall>j<b. ys ! j < v"
  shows "argmax_from xs i b v < length ys
       \<and> (\<forall>j<length ys. ys ! j \<le> ys ! argmax_from xs i b v)
       \<and> (\<forall>j<argmax_from xs i b v. ys ! j < ys ! argmax_from xs i b v)"
  using assms
proof (induction xs arbitrary: i b v)
  case Nil
  then have "i = length ys" by simp
  with Nil show ?case by simp
next
  case (Cons x xs)
  have i: "i < length ys"
  proof (rule ccontr)
    assume "\<not> i < length ys"
    then have "drop i ys = []" by simp
    with Cons.prems(1) show False by simp
  qed
  have "x # xs = ys ! i # drop (Suc i) ys"
    using Cons.prems(1) Cons_nth_drop_Suc[OF i] by simp
  then have x: "ys ! i = x" and xs: "xs = drop (Suc i) ys" by simp_all
  show ?case
  proof (cases "v < x")
    case True
    have "\<forall>j<Suc i. ys ! j \<le> x"
      using Cons.prems(5) True x by (auto simp: less_Suc_eq intro: less_imp_le order.trans)
    moreover have "\<forall>j<i. ys ! j < x"
      using Cons.prems(5) True by (auto intro: le_less_trans)
    ultimately show ?thesis
      using Cons.IH[OF xs _ x _ _ _] i True by simp
  next
    case False
    have "\<forall>j<Suc i. ys ! j \<le> v"
      using Cons.prems(5) False x by (auto simp: less_Suc_eq)
    then show ?thesis
      using Cons.IH[OF xs _ Cons.prems(3) _ _ Cons.prems(6)] i False Cons.prems(2) by simp
  qed
qed

lemma argmax_first_max:
  assumes "argmax ys = Some r"
  shows "r < length ys \<and> (\<forall>j<length ys. ys ! j \<le> ys ! r) \<and> (\<forall>j<r. ys ! j < ys ! r)"
proof (cases ys)
  case Nil
  with assms show ?thesis by (simp add: argmax_def)
next
  case (Cons y ys')
  then have r: "r = argmax_from ys' 1 0 y" using assms by (simp add: argmax_def)
  have "ys' = drop 1 ys" "ys ! 0 = y" "1 \<le> length ys" "\<forall>j<1. ys ! j \<le> y"
    using Cons by simp_all
  from argmax_from_correct[OF this(1) _ this(2,3,4)] show ?thesis unfolding r by simp
qed

lemma Action_arm_lengths:
  assumes "Action_arm ops s Ui ctx (nn, rg, pr, sr) arm = Inr (nn', rg', pr', sr')"
  shows "length sr' = length sr \<and> length pr' = length pr"
  using assms
  by (auto simp: Action_arm_def Let_def split: sum.splits prod.splits if_splits list.splits)



subsection \<open>What Action and Update change\<close>

lemma GetGrad_fields:
  "GetGrad nn x = Inr (g, nn') \<Longrightarrow> \<exists>gr. nn' = nn\<lparr>nn_grad := gr\<rparr>"
  by (auto simp: GetGrad_def Let_def split: sum.splits if_splits prod.splits)

lemma Action_unchanged:
  assumes "Action ops s ctx = Inr (ind, s')"
  shows "ag_U s' = ag_U s \<and> ag_m s' = ag_m s \<and> ag_lambda s' = ag_lambda s \<and> ag_t s' = ag_t s
     \<and> ag_p s' = ag_p s \<and> ag_K s' = ag_K s \<and> ag_T s' = ag_T s \<and> ag_frequency s' = ag_frequency s
     \<and> ag_history_reward s' = ag_history_reward s \<and> ag_batchsize s' = ag_batchsize s"
  using assms
  by (auto simp: Action_def split: option.splits sum.splits prod.splits if_splits)


lemma Update_unchanged:
  assumes "Update ops s r = Inr s'"
  shows "ag_m s' = ag_m s \<and> ag_lambda s' = ag_lambda s \<and> ag_t s' = ag_t s + 1
     \<and> ag_p s' = ag_p s \<and> ag_K s' = ag_K s \<and> ag_T s' = ag_T s \<and> ag_frequency s' = ag_frequency s
     \<and> ag_batchsize s' = ag_batchsize s
     \<and> ag_history_reward s' = (ag_history_reward s)[ag_t s := r]
     \<and> ag_history_action s' = ag_history_action s
     \<and> ag_history_context s' = ag_history_context s"
  using assms
  by (auto simp: Update_def Let_def split: option.splits sum.splits prod.splits if_splits)

lemma Update_predicted:
  "Update ops s r = Inr s' \<Longrightarrow> ag_predicted_reward s' = ag_predicted_reward s"
  by (auto simp: Update_def Let_def split: option.splits sum.splits prod.splits if_splits)


lemma rounds_config:
  "rounds ops s rs = Inr (inds, s') \<Longrightarrow>
     ag_frequency s' = ag_frequency s \<and> ag_batchsize s' = ag_batchsize s \<and> ag_p s' = ag_p s \<and>
     ag_T s' = ag_T s \<and> ag_m s' = ag_m s"
proof (induction rs arbitrary: s inds)
  case Nil
  then show ?case by simp
next
  case (Cons a rs)
  obtain ctx r where a: "a = (ctx, r)" by (cases a)
  from Cons.prems obtain ind s1 s2 inds' where
    st: "Action ops s ctx = Inr (ind, s1)" "Update ops s1 r = Inr s2" "rounds ops s2 rs = Inr (inds', s')"
    by (auto simp: a split: sum.splits prod.splits)
  show ?case
    using Cons.IH[OF st(3)] Action_unchanged[OF st(1)] Update_unchanged[OF st(2)] by simp
qed

lemma NeuralAgent_init_config:
  assumes "NeuralAgent_init ops g cfg = Inr s"
  shows "ag_frequency s = cf_frequency cfg \<and> ag_batchsize s = cf_batchsize cfg \<and>
         ag_T s = cf_T cfg \<and> ag_m s = cf_m cfg \<and> 0 < cf_m cfg \<and> ag_t s = 0 \<and>
         ag_p s = int (cf_m cfg) + int (cf_m cfg) * int (cf_d cfg)
                  + int (cf_m cfg) * int (cf_m cfg) * (int (cf_L cfg) - 2)"
  using assms
  by (auto simp: NeuralAgent_init_def Let_def split: sum.splits prod.splits if_splits
           dest: NeuralNetwork_init_m)

lemma Action_fold:
  assumes "Action ops s context_list = Inr (ind, s')"
  shows "\<exists>U_inverse nn rg predict_reward sample_reward.
           linalg_inv (ag_U s) = Some U_inverse \<and>
           fold_err (Action_arm ops s U_inverse context_list) [1..<ag_K s + 1]
             (ag_mynn s, ag_random_generator s, replicate (ag_K s) 0, replicate (ag_K s) 0)
             = Inr (nn, rg, predict_reward, sample_reward) \<and>
           argmax sample_reward = Some ind \<and> ag_t s < length (ag_history_action s) \<and>
           s' = s\<lparr>ag_history_action := (ag_history_action s)[ag_t s := real ind],
                  ag_history_context := (ag_history_context s)[ag_t s := context_list ! ind],
                  ag_predicted_reward := (ag_predicted_reward s)[ag_t s := predict_reward ! ind],
                  ag_mynn := nn, ag_random_generator := rg\<rparr>"
  using assms
  by (auto simp: Action_def split: option.splits sum.splits prod.splits if_splits)

lemma GetGrad_length: "GetGrad nn x = Inr (g, nn') \<Longrightarrow> length x = nn_d nn"
  by (auto simp: GetGrad_def forward_def Let_def split: if_splits)

lemma Action_arm_network:
  assumes "Action_arm ops s Ui ctx (nn, rg, pr, sr) arm = Inr (nn', rg', pr', sr')"
  shows "(\<exists>gr. nn' = nn\<lparr>nn_grad := gr\<rparr>) \<and> length (ctx ! (arm - 1)) = nn_d nn"
  using assms
  by (auto simp: Action_arm_def Let_def split: sum.splits prod.splits if_splits list.splits
           dest: GetGrad_fields GetGrad_length)

lemma sgd_step_fields:
  "sgd_step lam p eta nn X y = Inr nn' \<Longrightarrow> \<exists>Ws gr. nn' = nn\<lparr>nn_W := Ws, nn_grad := gr\<rparr>"
  by (auto simp: sgd_step_def Let_def split: sum.splits if_splits prod.splits)

lemma train_epoch_W0:
  assumes "train_epoch ops s (nn, g) jj = Inr (nn', g')"
  shows "nn_W0 nn' = nn_W0 nn \<and> nn_d nn' = nn_d nn \<and> nn_L nn' = nn_L nn \<and> nn_m nn' = nn_m nn"
proof -
  from assms obtain b tc tr where
    f: "fold_err (train_batch s b tc tr) [0..<ag_t s div b + 1] nn = Inr nn'"
    by (auto simp: train_epoch_def Let_def split: prod.splits option.splits if_splits sum.splits)
  show ?thesis
    by (rule fold_err_invariant[OF f, where P = "\<lambda>n. nn_W0 n = nn_W0 nn \<and> nn_d n = nn_d nn \<and> nn_L n = nn_L nn \<and> nn_m n = nn_m nn"])
       (auto simp: train_batch_def Let_def dest!: sgd_step_fields)
qed

lemma retrain_W0:
  assumes "retrain ops s nn g = Inr (nn', g')"
  shows "nn_W0 nn' = nn_W0 nn \<and> nn_d nn' = nn_d nn \<and> nn_L nn' = nn_L nn \<and> nn_m nn' = nn_m nn"
proof -
  have "(\<lambda>st. nn_W0 (fst st) = nn_W0 nn \<and> nn_d (fst st) = nn_d nn \<and> nn_L (fst st) = nn_L nn \<and> nn_m (fst st) = nn_m nn) (nn', g')"
    by (rule fold_err_invariant[OF assms[unfolded retrain_def]]) (auto dest: train_epoch_W0)
  then show ?thesis by simp
qed

subsection \<open>Well-formed agents\<close>

lemma out_width_pos: "nn_L nn \<noteq> 0 \<Longrightarrow> 0 < nn_m nn \<Longrightarrow> out_width nn \<noteq> 0"
  by (simp add: out_width_def layer_shape_def)

lemma forward_ok: "\<forall>row \<in> set X. length row = nn_d nn \<Longrightarrow> \<exists>out. forward nn (Mat X) = Inr out"
  by (simp add: forward_def)

lemma GetGrad_ok:
  assumes "length x = nn_d nn" "nn_L nn \<noteq> 0" "0 < nn_m nn"
  shows "\<exists>g gr. GetGrad nn x = Inr (g, nn\<lparr>nn_grad := gr\<rparr>)"
  using assms out_width_pos[OF assms(2,3)]
  by (auto simp: GetGrad_def forward_def Let_def split: prod.splits)

lemma NeuralNetwork_init_fields:
  "NeuralNetwork_init ops g d L m seed = Inr (nn, g') \<Longrightarrow> nn_d nn = d \<and> nn_L nn = L \<and> nn_m nn = m \<and> 0 < m"
  by (auto simp: NeuralNetwork_init_def Let_def split: prod.splits if_splits sum.splits)

lemma wf_agent_init:
  assumes "NeuralAgent_init ops g cfg = Inr s"
  shows "wf_agent s"
  using assms
  by (auto simp: NeuralAgent_init_def Let_def wf_agent_def zeros_def
           split: sum.splits prod.splits if_splits dest!: NeuralNetwork_init_fields)

lemma wf_agent_Action:
  assumes "wf_agent s" "Action ops s context_list = Inr (ind, s')"
  shows "wf_agent s'"
proof -
  from Action_fold[OF assms(2)] obtain U_inverse nn rg predict_reward sample_reward where
    f: "fold_err (Action_arm ops s U_inverse context_list) [1..<ag_K s + 1]
             (ag_mynn s, ag_random_generator s, replicate (ag_K s) 0, replicate (ag_K s) 0)
             = Inr (nn, rg, predict_reward, sample_reward)"
    and a: "argmax sample_reward = Some ind"
    and s': "s' = s\<lparr>ag_history_action := (ag_history_action s)[ag_t s := real ind],
                  ag_history_context := (ag_history_context s)[ag_t s := context_list ! ind],
                  ag_predicted_reward := (ag_predicted_reward s)[ag_t s := predict_reward ! ind],
                  ag_mynn := nn, ag_random_generator := rg\<rparr>"
    by blast
  let ?P = "\<lambda>st. (case st of (n, r, pr, sr) \<Rightarrow>
              nn_d n = nn_d (ag_mynn s) \<and> nn_L n = nn_L (ag_mynn s) \<and> nn_m n = nn_m (ag_mynn s) \<and>
              length sr = ag_K s)"
  let ?Q = "\<lambda>arm. length (context_list ! (arm - 1)) = nn_d (ag_mynn s)"
  have "?P (nn, rg, predict_reward, sample_reward) \<and> (\<forall>arm \<in> set [1..<ag_K s + 1]. ?Q arm)"
  proof (rule fold_err_all[OF f])
    show "?P (ag_mynn s, ag_random_generator s, replicate (ag_K s) 0, replicate (ag_K s) 0)"
      by simp
  next
    fix st arm st'
    assume P: "?P st" and step: "Action_arm ops s U_inverse context_list st arm = Inr st'"
    obtain n r pr sr where st: "st = (n, r, pr, sr)" by (cases st)
    obtain n' r' pr' sr' where st': "st' = (n', r', pr', sr')" by (cases st')
    from Action_arm_network[OF step[unfolded st st']] Action_arm_lengths[OF step[unfolded st st']] P
    show "?P st' \<and> ?Q arm" by (auto simp: st st')
  qed
  then have nn: "nn_d nn = nn_d (ag_mynn s)" "nn_L nn = nn_L (ag_mynn s)" "nn_m nn = nn_m (ag_mynn s)"
    and len: "length sample_reward = ag_K s"
    and Q: "\<forall>arm \<in> set [1..<ag_K s + 1]. ?Q arm" by auto
  have "ind < ag_K s" using argmax_first_max[OF a] len by simp
  then have "ind + 1 \<in> set [1..<ag_K s + 1]" by (simp del: upt_Suc)
  then have "length (context_list ! (ind + 1 - 1)) = nn_d (ag_mynn s)" using Q by blast
  then have "length (context_list ! ind) = nn_d (ag_mynn s)" by simp
  then show ?thesis
    using assms(1) by (auto simp: wf_agent_def s' nn dest!: set_update_subset_insert[THEN subsetD])
qed

lemma wf_agent_Update:
  assumes "wf_agent s" "Update ops s reward = Inr s'"
  shows "wf_agent s'"
proof -
  let ?s1 = "s\<lparr>ag_history_reward := (ag_history_reward s)[ag_t s := reward]\<rparr>"
  from assms(2) obtain g nn1 nn2 g2 where
    gg: "GetGrad (ag_mynn s) (ag_history_context s ! ag_t s) = Inr (g, nn1)"
    and br: "(if (ag_t s + 1) mod ag_frequency s = 0 then retrain ops ?s1 nn1 (ag_np_random s)
              else Inr (nn1, ag_np_random s)) = Inr (nn2, g2)"
    and s': "ag_mynn s' = nn2"
    by (auto simp: Update_def Let_def split: sum.splits prod.splits if_splits)
  obtain gr where nn1: "nn1 = (ag_mynn s)\<lparr>nn_grad := gr\<rparr>" using GetGrad_fields[OF gg] by blast
  have "nn_d nn2 = nn_d nn1 \<and> nn_L nn2 = nn_L nn1 \<and> nn_m nn2 = nn_m nn1"
    using br retrain_W0[of ops ?s1 nn1 "ag_np_random s" nn2 g2] by (auto split: if_splits)
  then show ?thesis
    using assms(1) Update_unchanged[OF assms(2)] Update_predicted[OF assms(2)]
    by (simp add: wf_agent_def s' nn1)
qed

lemma wf_agent_rounds:
  "wf_agent s \<Longrightarrow> rounds ops s rs = Inr (inds, s') \<Longrightarrow> wf_agent s'"
proof (induction rs arbitrary: s inds)
  case Nil
  then show ?case by simp
next
  case (Cons a rs)
  obtain ctx r where a: "a = (ctx, r)" by (cases a)
  from Cons.prems(2) obtain ind s1 s2 inds' where
    st: "Action ops s ctx = Inr (ind, s1)" "Update ops s1 r = Inr s2" "rounds ops s2 rs = Inr (inds', s')"
    by (auto simp: a split: sum.splits prod.splits)
  show ?case
    using Cons.IH[OF wf_agent_Update[OF wf_agent_Action[OF Cons.prems(1) st(1)] st(2)] st(3)] .
qed

subsection \<open>When Update returns\<close>

lemma shuffle_from_set:
  assumes "\<And>g i. fst (np_random_interval ops g i) \<le> i" "i < length xs"
  shows "set (fst (shuffle_from ops i g xs)) = set xs"
  using assms(2)
proof (induction i arbitrary: g xs)
  case 0
  then show ?case by simp
next
  case (Suc i)
  obtain j g1 where j: "np_random_interval ops g (Suc i) = (j, g1)" by force
  have jle: "j \<le> Suc i" using assms(1)[of g "Suc i"] j by simp
  let ?xs = "xs[Suc i := xs ! j, j := xs ! Suc i]"
  have "set ?xs = set xs" using Suc.prems jle by (intro set_swap) auto
  moreover have "i < length ?xs" using Suc.prems by simp
  ultimately show ?case using Suc.IH[of ?xs g1] by (simp add: j)
qed

lemma shuffle_set:
  assumes "\<And>g i. fst (np_random_interval ops g i) \<le> i"
  shows "set (fst (shuffle ops g xs)) = set xs"
proof (cases xs)
  case Nil
  then show ?thesis by (simp add: shuffle_def)
next
  case (Cons x xs')
  then show ?thesis unfolding shuffle_def by (intro shuffle_from_set[OF assms]) simp
qed

lemma sgd_step_ok:
  assumes "\<forall>row \<in> set X. length row = nn_d nn" "out_width nn \<noteq> 0" "p \<noteq> 0"
  shows "\<exists>Ws gr. sgd_step lam p eta nn X y = Inr (nn\<lparr>nn_W := Ws, nn_grad := gr\<rparr>)"
  using assms by (auto simp: sgd_step_def forward_def Let_def split: prod.splits)

lemma set_batch_subset: "set (if c then take b (drop k xs) else drop k xs) \<subseteq> set xs"
  by (auto dest: in_set_takeD in_set_dropD)

lemma train_epoch_ok:
  assumes "\<And>g i. fst (np_random_interval ops g i) \<le> i"
    "ag_batchsize s = Some b" "0 < b" "ag_p s \<noteq> 0" "ag_t s < length (ag_history_context s)"
    "\<forall>row \<in> set (ag_history_context s). length row = nn_d nn" "nn_L nn \<noteq> 0" "0 < nn_m nn"
  shows "\<exists>nn' g'. train_epoch ops s (nn, g) jj = Inr (nn', g') \<and>
           nn_d nn' = nn_d nn \<and> nn_L nn' = nn_L nn \<and> nn_m nn' = nn_m nn"
proof -
  obtain idx g1 where sh: "shuffle ops g [0..<Suc (ag_t s)] = (idx, g1)" by force
  have idx: "set idx = {0..<Suc (ag_t s)}"
    using shuffle_set[OF assms(1), of g "[0..<Suc (ag_t s)]"] sh by (simp del: upt_Suc)
  let ?tc = "map (\<lambda>i. ag_history_context s ! i) idx"
  let ?tr = "map (\<lambda>i. ag_history_reward s ! i) idx"
  have rows: "\<forall>row \<in> set ?tc. length row = nn_d nn"
    using idx assms(5,6) by auto
  let ?P = "\<lambda>n. nn_d n = nn_d nn \<and> nn_L n = nn_L nn \<and> nn_m n = nn_m nn"
  have "\<exists>nn'. fold_err (train_batch s b ?tc ?tr) [0..<ag_t s div b + 1] nn = Inr nn' \<and> ?P nn'"
  proof (rule fold_err_ok)
    show "?P nn" by simp
  next
    fix n :: network and x :: nat assume P: "?P n"
    let ?X = "if x < ag_t s div b then take b (drop (x * b) ?tc) else drop (x * b) ?tc"
    have "set ?X \<subseteq> set ?tc"
      by (rule set_batch_subset)
    then have "\<forall>row \<in> set ?X. length row = nn_d nn"
      using rows by blast
    then have "\<forall>row \<in> set ?X. length row = nn_d n"
      using P by simp
    moreover have "out_width n \<noteq> 0" using P assms(7,8) by (simp add: out_width_pos)
    ultimately obtain Ws gr where
      "sgd_step (ag_lambda s) (ag_p s) (ag_eta s) n ?X
         (if x < ag_t s div b then take b (drop (x * b) ?tr) else drop (x * b) ?tr)
       = Inr (n\<lparr>nn_W := Ws, nn_grad := gr\<rparr>)"
      using sgd_step_ok[OF _ _ assms(4)] by blast
    then show "\<exists>n'. train_batch s b ?tc ?tr n x = Inr n' \<and> ?P n'"
      using P by (simp add: train_batch_def Let_def)
  qed
  then show ?thesis
    using assms(2,3) by (auto simp: train_epoch_def sh Let_def simp del: upt_Suc)
qed

lemma retrain_ok:
  fixes ops :: "('g, 'h) rng_ops"
  assumes "\<And>g i. fst (np_random_interval ops g i) \<le> i"
    "ag_batchsize s = Some b" "0 < b" "ag_p s \<noteq> 0" "ag_t s < length (ag_history_context s)"
    "\<forall>row \<in> set (ag_history_context s). length row = nn_d nn" "nn_L nn \<noteq> 0" "0 < nn_m nn"
  shows "\<exists>nn' g'. retrain ops s nn g = Inr (nn', g')"
proof -
  let ?P = "\<lambda>st. nn_d (fst st) = nn_d nn \<and> nn_L (fst st) = nn_L nn \<and> nn_m (fst st) = nn_m nn"
  have "\<exists>st'. fold_err (train_epoch ops s) [0..<min (ag_t s) 100] (nn\<lparr>nn_W := nn_W0 nn\<rparr>, g) = Inr st' \<and> ?P st'"
  proof (rule fold_err_ok)
    show "?P (nn\<lparr>nn_W := nn_W0 nn\<rparr>, g)" by simp
  next
    fix st :: "network \<times> 'g" and jj :: nat assume P: "?P st"
    obtain n g0 where st: "st = (n, g0)" by (cases st)
    from train_epoch_ok[OF assms(1-5), of n g0 jj] P assms(6-8)
    show "\<exists>st'. train_epoch ops s st jj = Inr st' \<and> ?P st'" by (auto simp: st)
  qed
  then show ?thesis unfolding retrain_def by auto
qed

lemma p_positive:
  assumes "0 < m" "2 \<le> L"
  shows "int m + int m * int d + int m * int m * (int L - 2) \<noteq> 0"
proof -
  have "0 \<le> int m * int d" "0 \<le> int m * int m * (int L - 2)" using assms by simp_all
  then show ?thesis using assms(1) by linarith
qed

lemma Update_ok:
  fixes ops :: "('g, 'h) rng_ops"
  assumes "wf_agent s" "ag_t s < ag_T s" "ag_frequency s \<noteq> 0"
    "ag_batchsize s = Some b" "0 < b" "ag_p s \<noteq> 0"
    "\<And>g i. fst (np_random_interval ops g i) \<le> i"
  shows "\<exists>s'. Update ops s reward = Inr s'"
proof -
  let ?s1 = "s\<lparr>ag_history_reward := (ag_history_reward s)[ag_t s := reward]\<rparr>"
  have len: "ag_t s < length (ag_history_reward s)" "ag_t s < length (ag_history_action s)"
    "ag_t s < length (ag_history_context s)"
    and rows: "\<forall>row \<in> set (ag_history_context s). length row = nn_d (ag_mynn s)"
    and L: "nn_L (ag_mynn s) \<noteq> 0" and m: "0 < nn_m (ag_mynn s)"
    using assms(1,2) by (auto simp: wf_agent_def)
  have "length (ag_history_context s ! ag_t s) = nn_d (ag_mynn s)"
    using rows len(3) by simp
  from GetGrad_ok[OF this L m] obtain g gr where
    gg: "GetGrad (ag_mynn s) (ag_history_context s ! ag_t s) = Inr (g, (ag_mynn s)\<lparr>nn_grad := gr\<rparr>)"
    by blast
  have "\<exists>nn' g'. retrain ops ?s1 ((ag_mynn s)\<lparr>nn_grad := gr\<rparr>) (ag_np_random s) = Inr (nn', g')"
    by (rule retrain_ok[OF assms(7), of ?s1 b]) (use assms(4,5,6) len rows L m in auto)
  then obtain nn2 g2 where
    "(if (ag_t s + 1) mod ag_frequency s = 0
      then retrain ops ?s1 ((ag_mynn s)\<lparr>nn_grad := gr\<rparr>) (ag_np_random s)
      else Inr ((ag_mynn s)\<lparr>nn_grad := gr\<rparr>, ag_np_random s)) = Inr (nn2, g2)"
    by (cases "(ag_t s + 1) mod ag_frequency s = 0") auto
  then show ?thesis
    using len assms(3) gg by (simp add: Update_def Let_def)
qed

lemma example_contract: "\<forall>g i. fst (np_random_interval example_ops g i) \<le> i"
  by (simp add: example_ops_def)

text \<open>
  C4, as the code has it. \<^verbatim>\<open>Update\<close> does not check that an \<^verbatim>\<open>Action\<close> came before it and
  there is no sequence error. On an agent that has played any number of rounds (so the last
  call, if any, was an \<^verbatim>\<open>Update\<close>), with \<open>t < T\<close>, a non-zero \<open>frequency\<close>, a positive
  \<open>batchsize\<close>, \<open>L \<ge> 2\<close> and a generator whose integer draws respect their bound, a further
  \<^verbatim>\<open>Update\<close> returns normally: \<open>t\<close> advances by one and the reward is stored in slot \<open>t\<close> of
  the reward history; the recorded actions and contexts are left as they are.
\<close>

theorem Update_without_Action:
  fixes ops :: "('g, 'h) rng_ops"
  assumes "NeuralAgent_init ops g0 cfg = Inr s0" "rounds ops s0 rs = Inr (inds, s)"
    "ag_t s < cf_T cfg" "cf_frequency cfg \<noteq> 0" "cf_batchsize cfg = Some b" "0 < b"
    "2 \<le> cf_L cfg" "\<forall>g i. fst (np_random_interval ops g i) \<le> i"
  shows "\<exists>s'. Update ops s reward = Inr s' \<and> ag_t s' = ag_t s + 1 \<and>
           ag_history_reward s' = (ag_history_reward s)[ag_t s := reward] \<and>
           ag_history_action s' = ag_history_action s \<and>
           ag_history_context s' = ag_history_context s"
proof -
  have wf: "wf_agent s" using wf_agent_rounds[OF wf_agent_init[OF assms(1)] assms(2)] .
  note c = NeuralAgent_init_config[OF assms(1)] rounds_config[OF assms(2)]
  have p: "ag_p s \<noteq> 0" using c p_positive[of "cf_m cfg" "cf_L cfg" "cf_d cfg"] assms(7) by simp
  obtain s' where s': "Update ops s reward = Inr s'"
    using Update_ok[OF wf _ _ _ assms(6) p, of ops reward] assms(3,4,5,8) c by auto
  show ?thesis
    using s' Update_unchanged[OF s'] by auto
qed

theorem Update_without_Action_witness:
  "NeuralAgent_init example_ops 7 example_config = Inr example_agent0 \<and>
   rounds example_ops example_agent0 [(example_contexts, 1)] = Inr ([1], example_agent2) \<and>
   ag_t example_agent2 < cf_T example_config \<and> cf_frequency example_config \<noteq> 0 \<and>
   cf_batchsize example_config = Some 1 \<and> (0::nat) < 1 \<and> 2 \<le> cf_L example_config \<and>
   (\<forall>g i. fst (np_random_interval example_ops g i) \<le> i) \<and>
   (\<exists>s'. Update example_ops example_agent2 (1 / 2) = Inr s' \<and>
      ag_t s' = ag_t example_agent2 + 1 \<and>
      ag_history_reward s' = (ag_history_reward example_agent2)[ag_t example_agent2 := 1 / 2] \<and>
      ag_history_action s' = ag_history_action example_agent2 \<and>
      ag_history_context s' = ag_history_context example_agent2)"
proof -
  have h: "ag_t example_agent2 < cf_T example_config" "cf_frequency example_config \<noteq> 0"
    "cf_batchsize example_config = Some 1" "(0::nat) < 1" "2 \<le> cf_L example_config"
    by (simp_all add: example_defs)
  show ?thesis
    using Update_without_Action[OF example_init example_rounds h example_contract, of "1 / 2"]
      example_init example_rounds h example_contract by blast
qed

text \<open>
  C4 as stated fails: in the example, the \<^verbatim>\<open>Update\<close> that follows the first \<^verbatim>\<open>Update\<close>
  directly returns normally, and \<open>t\<close>, the reward history and \<open>U\<close> have all changed.
\<close>

theorem Update_twice_counterexample:
  "Action example_ops example_agent0 example_contexts = Inr (1, example_agent1) \<and>
   Update example_ops example_agent1 1 = Inr example_agent2 \<and>
   Update example_ops example_agent2 (1 / 2) = Inr example_agent3 \<and>
   ag_t example_agent2 = 1 \<and> ag_t example_agent3 = 2 \<and>
   ag_history_reward example_agent2 = [1, 0, 0] \<and>
   ag_history_reward example_agent3 = [1, 1 / 2, 0] \<and>
   ag_U example_agent2 ! 0 ! 0 = 13 \<and> ag_U example_agent3 ! 0 ! 0 = 25"
  by (simp add: example_Action example_Update example_Update_again)
     (simp add: example_defs)

subsection \<open>The increment of U\<close>

text \<open>
  C2 at a concrete round. The context recorded for the round is \<open>[1, 0]\<close>, where the
  gradient of the network is \<open>g = [\<surd>2, 0, 0, 0, 2, 0]\<close>; with \<open>U[0][1] = 0\<close> before, the
  claim gives \<open>U'[0][1] = 0 + g[0] g[1] / m = 0\<close>. \<^verbatim>\<open>Update\<close> makes it 12: it adds the
  inner product of the accumulated gradient buffer \<open>[2\<surd>2, 0, 0, 0, 4, 0]\<close> with itself,
  divided by \<open>m = 2\<close>, to every entry.
\<close>

theorem Update_U_failing_input:
  "Action example_ops example_agent0 example_contexts = Inr (1, example_agent1) \<and>
   Update example_ops example_agent1 1 = Inr example_agent2 \<and>
   ag_history_context example_agent1 ! ag_t example_agent1 = [1, 0] \<and>
   GetGrad example_network [1, 0]
     = Inr ([sqrt 2, 0, 0, 0, 2, 0],
            example_network\<lparr>nn_grad := [[[sqrt 2, 0], [0, 0]], [[2], [0]]]\<rparr>) \<and>
   ag_U example_agent1 ! 0 ! 1 = 0 \<and>
   ag_U example_agent2 ! 0 ! 1 = 12 \<and>
   ag_U example_agent1 ! 0 ! 1 + [sqrt 2, 0, 0, 0, 2, 0] ! 0 * [sqrt 2, 0, 0, 0, 2, 0] ! 1
     / real (ag_m example_agent1) = 0"
  by (simp add: example_Action example_Update)
     (simp add: model_defs example_defs upt_conv_Cons Let_def eval_nat_numeral)

subsection \<open>Retraining\<close>

text \<open>
  C5. When \<^verbatim>\<open>Update\<close> returns, the snapshot \<^verbatim>\<open>W0\<close> is what it was. If
  \<open>(t + 1) mod frequency = 0\<close>, the network it leaves is the last of \<open>min(t, 100) + 1\<close>
  states, the first with every weight matrix equal to its snapshot and each next one the
  result of one training epoch on the one before; otherwise the weights are unchanged.
\<close>

theorem Update_retrains:
  assumes "Update ops s reward = Inr s'"
  shows "nn_W0 (ag_mynn s') = nn_W0 (ag_mynn s) \<and>
    (if (ag_t s + 1) mod ag_frequency s = 0
     then \<exists>sts. length sts = min (ag_t s) 100 + 1 \<and>
            nn_W (fst (sts ! 0)) = nn_W0 (ag_mynn s) \<and>
            (\<forall>jj < min (ag_t s) 100.
               train_epoch ops (s\<lparr>ag_history_reward := (ag_history_reward s)[ag_t s := reward]\<rparr>)
                 (sts ! jj) jj = Inr (sts ! (jj + 1))) \<and>
            sts ! min (ag_t s) 100 = (ag_mynn s', ag_np_random s')
     else nn_W (ag_mynn s') = nn_W (ag_mynn s))"
proof -
  let ?s1 = "s\<lparr>ag_history_reward := (ag_history_reward s)[ag_t s := reward]\<rparr>"
  from assms obtain g nn1 nn2 g2 where
    gg: "GetGrad (ag_mynn s) (ag_history_context s ! ag_t s) = Inr (g, nn1)"
    and br: "(if (ag_t s + 1) mod ag_frequency s = 0 then retrain ops ?s1 nn1 (ag_np_random s)
              else Inr (nn1, ag_np_random s)) = Inr (nn2, g2)"
    and s': "ag_mynn s' = nn2" "ag_np_random s' = g2"
    by (auto simp: Update_def Let_def split: sum.splits prod.splits if_splits)
  obtain gr where nn1: "nn1 = (ag_mynn s)\<lparr>nn_grad := gr\<rparr>" using GetGrad_fields[OF gg] by blast
  show ?thesis
  proof (cases "(ag_t s + 1) mod ag_frequency s = 0")
    case True
    then have r: "retrain ops ?s1 nn1 (ag_np_random s) = Inr (nn2, g2)" using br by simp
    from fold_err_upt_chain[OF r[unfolded retrain_def]] obtain sts where
      sts: "length sts = min (ag_t ?s1) 100 + 1" "sts ! 0 = (nn1\<lparr>nn_W := nn_W0 nn1\<rparr>, ag_np_random s)"
        "sts ! min (ag_t ?s1) 100 = (nn2, g2)"
        "\<forall>j<min (ag_t ?s1) 100. train_epoch ops ?s1 (sts ! j) j = Inr (sts ! (j + 1))"
      by blast
    have "\<exists>sts. length sts = min (ag_t s) 100 + 1 \<and>
            nn_W (fst (sts ! 0)) = nn_W0 (ag_mynn s) \<and>
            (\<forall>jj < min (ag_t s) 100. train_epoch ops ?s1 (sts ! jj) jj = Inr (sts ! (jj + 1))) \<and>
            sts ! min (ag_t s) 100 = (ag_mynn s', ag_np_random s')"
      using sts by (intro exI[of _ sts]) (simp add: nn1 s')
    then show ?thesis using True retrain_W0[OF r] by (simp add: s' nn1)
  next
    case False
    then show ?thesis using br by (auto simp: s' nn1)
  qed
qed

theorem Update_retrains_witness:
  "Update example_ops example_agent2 (1 / 2) = Inr example_agent3 \<and>
   (ag_t example_agent2 + 1) mod ag_frequency example_agent2 = 0 \<and>
   nn_W0 (ag_mynn example_agent3) = nn_W0 (ag_mynn example_agent2) \<and>
   (\<exists>sts. length sts = min (ag_t example_agent2) 100 + 1 \<and>
      nn_W (fst (sts ! 0)) = nn_W0 (ag_mynn example_agent2) \<and>
      (\<forall>jj < min (ag_t example_agent2) 100.
         train_epoch example_ops
           (example_agent2\<lparr>ag_history_reward :=
              (ag_history_reward example_agent2)[ag_t example_agent2 := 1 / 2]\<rparr>)
           (sts ! jj) jj = Inr (sts ! (jj + 1))) \<and>
      sts ! min (ag_t example_agent2) 100 = (ag_mynn example_agent3, ag_np_random example_agent3))"
proof -
  have h: "(ag_t example_agent2 + 1) mod ag_frequency example_agent2 = 0"
    by (simp add: example_defs)
  show ?thesis
    using Update_retrains[OF example_Update_again] h example_Update_again by simp
qed

subsection \<open>An unset batchsize\<close>

lemma example_init_unset:
  "NeuralAgent_init example_ops 7 (example_config\<lparr>cf_batchsize := None\<rparr>)
     = Inr (example_agent0\<lparr>ag_batchsize := None\<rparr>)"
  by (simp add: model_defs example_defs upt_conv_Cons Let_def eval_nat_numeral)

text \<open>
  C6, as the code has it. For even \<open>d\<close> and \<open>m\<close>, \<open>m > 0\<close>, \<open>L \<ge> 2\<close> and \<open>\<eta> \<ge> 0\<close>, constructing
  an agent with \<^verbatim>\<open>batchsize\<close> omitted raises nothing: the constructor returns an agent with
  \<^verbatim>\<open>batchsize\<close> unset, the \<open>L\<close> weight matrices and \<open>U = \<lambda> I\<close> allocated.
\<close>

theorem batchsize_unset_accepted:
  assumes "even (cf_d cfg)" "even (cf_m cfg)" "0 < cf_m cfg" "2 \<le> cf_L cfg"
    "cf_batchsize cfg = None" "0 \<le> cf_eta cfg"
  shows "\<exists>s. NeuralAgent_init ops g cfg = Inr s \<and> ag_batchsize s = None \<and>
           length (nn_W (ag_mynn s)) = cf_L cfg \<and>
           ag_U s = map (map (\<lambda>v. cf_lambda cfg * v)) (eye (nat (ag_p s)))"
proof -
  have seed: "(0::int) \<le> 12345" "(12345::int) < 2 ^ 32" by simp_all
  obtain w1 w2 wL g' where
    init: "NeuralNetwork_init ops g (cf_d cfg) (cf_L cfg) (cf_m cfg) 12345 =
           Inr (\<lparr>nn_d = cf_d cfg, nn_L = cf_L cfg, nn_m = cf_m cfg, nn_random_seed = 12345,
                 nn_W = map (init_layer (cf_d cfg) (cf_m cfg) (cf_L cfg) w1 w2 wL) [1..<cf_L cfg + 1],
                 nn_W0 = map (init_layer (cf_d cfg) (cf_m cfg) (cf_L cfg) w1 w2 wL) [1..<cf_L cfg + 1],
                 nn_grad = map (\<lambda>l. case layer_shape (cf_d cfg) (cf_m cfg) (cf_L cfg) l of (k, n) \<Rightarrow> zeros k n) [1..<cf_L cfg + 1]\<rparr>, g')"
    using NeuralNetwork_init_even[OF assms(1,2,3) seed, of ops g "cf_L cfg"] by (elim exE)
  have p: "\<not> int (cf_m cfg) + int (cf_m cfg) * int (cf_d cfg)
            + int (cf_m cfg) * int (cf_m cfg) * (int (cf_L cfg) - 2) < 0"
  proof -
    have "0 \<le> int (cf_m cfg) * int (cf_d cfg)"
      "0 \<le> int (cf_m cfg) * int (cf_m cfg) * (int (cf_L cfg) - 2)" using assms(4) by simp_all
    then show ?thesis by linarith
  qed
  show ?thesis
    using assms(4,5,6) p
    by (simp add: NeuralAgent_init_def init Let_def del: upt_Suc)
qed

theorem batchsize_unset_accepted_witness:
  "even (cf_d (example_config\<lparr>cf_batchsize := None\<rparr>)) \<and>
   even (cf_m (example_config\<lparr>cf_batchsize := None\<rparr>)) \<and>
   0 < cf_m (example_config\<lparr>cf_batchsize := None\<rparr>) \<and>
   2 \<le> cf_L (example_config\<lparr>cf_batchsize := None\<rparr>) \<and>
   cf_batchsize (example_config\<lparr>cf_batchsize := None\<rparr>) = None \<and>
   0 \<le> cf_eta (example_config\<lparr>cf_batchsize := None\<rparr>) \<and>
   (\<exists>s. NeuralAgent_init example_ops 7 (example_config\<lparr>cf_batchsize := None\<rparr>) = Inr s \<and>
      ag_batchsize s = None \<and>
      length (nn_W (ag_mynn s)) = cf_L (example_config\<lparr>cf_batchsize := None\<rparr>) \<and>
      ag_U s = map (map (\<lambda>v. cf_lambda (example_config\<lparr>cf_batchsize := None\<rparr>) * v))
                 (eye (nat (ag_p s))))"
proof -
  have h: "even (cf_d (example_config\<lparr>cf_batchsize := None\<rparr>))"
    "even (cf_m (example_config\<lparr>cf_batchsize := None\<rparr>))"
    "0 < cf_m (example_config\<lparr>cf_batchsize := None\<rparr>)"
    "2 \<le> cf_L (example_config\<lparr>cf_batchsize := None\<rparr>)"
    "cf_batchsize (example_config\<lparr>cf_batchsize := None\<rparr>) = None"
    "0 \<le> cf_eta (example_config\<lparr>cf_batchsize := None\<rparr>)"
    by (simp_all add: example_config_def)
  show ?thesis
    using batchsize_unset_accepted[OF h, of example_ops 7] h by blast
qed

text \<open>
  C6 as stated fails: the example configuration with \<^verbatim>\<open>batchsize\<close> omitted is accepted.
\<close>

theorem batchsize_unset_counterexample:
  "cf_batchsize (example_config\<lparr>cf_batchsize := None\<rparr>) = None \<and>
   NeuralAgent_init example_ops 7 (example_config\<lparr>cf_batchsize := None\<rparr>)
     = Inr (example_agent0\<lparr>ag_batchsize := None\<rparr>)"
  by (simp add: example_init_unset)

subsection \<open>The confidence matrix\<close>



lemma ridge_nth: "i < p \<Longrightarrow> j < p \<Longrightarrow> ridge_plus_const lam p c ! i ! j = (if i = j then lam else 0) + c"
  by (simp add: ridge_plus_const_def)





























subsection \<open>Determinism\<close>

lemma rounds_shared_quiet:
  "rounds_shared ops s (map (\<lambda>(c, r). (c, r, id)) rs) = rounds ops s rs"
  by (induction rs arbitrary: s) (auto split: sum.splits prod.splits)

lemma Action_arm_generator:
  "Action_arm ops (s\<lparr>ag_np_random := g\<rparr>) U_inverse context_list = Action_arm ops s U_inverse context_list"
  by (intro ext) (simp add: Action_arm_def cong: prod.case_cong sum.case_cong if_cong list.case_cong)

lemma Action_generator:
  "Action ops (s\<lparr>ag_np_random := g\<rparr>) context_list =
     (case Action ops s context_list of
        Inl e \<Rightarrow> Inl e
      | Inr (ind, s1) \<Rightarrow> Inr (ind, s1\<lparr>ag_np_random := g\<rparr>))"
  by (simp add: Action_def Action_arm_generator split: option.splits sum.splits prod.splits)

lemma Update_generator:
  assumes "(ag_t s + 1) mod ag_frequency s \<noteq> 0"
  shows "Update ops (s\<lparr>ag_np_random := g\<rparr>) reward =
     (case Update ops s reward of Inl e \<Rightarrow> Inl e | Inr s1 \<Rightarrow> Inr (s1\<lparr>ag_np_random := g\<rparr>))"
  using assms by (simp add: Update_def Let_def split: sum.splits prod.splits)

lemma rounds_shared_generator:
  assumes "map (\<lambda>(c, r, other). (c, r)) rs = map (\<lambda>(c, r, other). (c, r)) rs'"
    "ag_t s + length rs < ag_frequency s"
  shows "arms_and_U (rounds_shared ops (s\<lparr>ag_np_random := g\<rparr>) rs)
       = arms_and_U (rounds_shared ops (s\<lparr>ag_np_random := g'\<rparr>) rs')"
  using assms
proof (induction rs arbitrary: rs' s g g')
  case Nil
  then show ?case by (simp add: arms_and_U_def)
next
  case (Cons a rs)
  obtain c r other where a: "a = (c, r, other)" by (cases a)
  from Cons.prems(1) obtain other' rest' where rs': "rs' = (c, r, other') # rest'"
    and rest: "map (\<lambda>(c, r, other). (c, r)) rs = map (\<lambda>(c, r, other). (c, r)) rest'"
    by (cases rs') (auto simp: a)
  show ?case
  proof (cases "Action ops s c")
    case (Inl e)
    then show ?thesis by (simp add: a rs' Action_generator arms_and_U_def)
  next
    case (Inr p)
    obtain ind s1 where p: "p = (ind, s1)" by (cases p)
    have act: "Action ops s c = Inr (ind, s1)" using Inr p by simp
    note u = Action_unchanged[OF act]
    have nr: "(ag_t s1 + 1) mod ag_frequency s1 \<noteq> 0"
      using Cons.prems(2) u by simp
    show ?thesis
    proof (cases "Update ops s1 r")
      case (Inl e)
      then show ?thesis
        by (simp add: a rs' Action_generator act Update_generator[OF nr] arms_and_U_def)
    next
      case (Inr s2)
      note v = Update_unchanged[OF Inr]
      have "ag_t s2 + length rs < ag_frequency s2" using Cons.prems(2) u v by simp
      from Cons.IH[OF rest this, of "other g" "other' g'"]
      show ?thesis
        by (simp add: a rs' Action_generator act Update_generator[OF nr] Inr arms_and_U_def
              split: sum.splits prod.splits)
    qed
  qed
qed

lemma NeuralAgent_init_ambient: "NeuralAgent_init ops g cfg = NeuralAgent_init ops g' cfg"
  by (simp add: NeuralAgent_init_def NeuralNetwork_init_def)

lemma same_rounds:
  assumes "map (\<lambda>(c, r, other). (c, r)) rs = map (\<lambda>(c, r, other). (c, r)) rs'"
    "map (\<lambda>(c, r, other). other) rs = map (\<lambda>(c, r, other). other) rs'"
  shows "rs = rs'"
  using assms
proof (induction rs arbitrary: rs')
  case Nil
  then show ?case by simp
next
  case (Cons a rs)
  then show ?case by (cases rs') (auto split: prod.splits)
qed

text \<open>
  C7, as the code has it. Two runs with the same seed, the same contexts and the same
  rewards choose the same arms and end with the same \<open>U\<close> (or raise the same error),
  whatever state numpy's generator was in before each construction, in two cases: what
  other code does to numpy's generator between the calls of the agent is the same in both
  runs; or the runs have fewer rounds than \<open>frequency\<close>, so that no retraining, the only
  reader of that generator, takes place.
\<close>

theorem runs_agree:
  assumes "map (\<lambda>(c, r, other). (c, r)) rs = map (\<lambda>(c, r, other). (c, r)) rs'"
    and "map (\<lambda>(c, r, other). other) rs = map (\<lambda>(c, r, other). other) rs'
         \<or> length rs < cf_frequency cfg"
  shows "arms_and_U (run_shared ops g cfg rs) = arms_and_U (run_shared ops g' cfg rs')"
proof (cases "NeuralAgent_init ops g cfg")
  case (Inl e)
  then show ?thesis using NeuralAgent_init_ambient[of ops g cfg g'] by (simp add: run_shared_def)
next
  case (Inr s0)
  have i': "NeuralAgent_init ops g' cfg = Inr s0"
    using Inr NeuralAgent_init_ambient[of ops g cfg g'] by simp
  from assms(2) show ?thesis
  proof
    assume "map (\<lambda>(c, r, other). other) rs = map (\<lambda>(c, r, other). other) rs'"
    then have "rs = rs'" using same_rounds[OF assms(1)] by simp
    then show ?thesis by (simp add: run_shared_def Inr i')
  next
    assume "length rs < cf_frequency cfg"
    then have "ag_t s0 + length rs < ag_frequency s0"
      using NeuralAgent_init_config[OF Inr] by simp
    from rounds_shared_generator[OF assms(1) this, of ops "ag_np_random s0" "ag_np_random s0"]
    show ?thesis by (simp add: run_shared_def Inr i')
  qed
qed

theorem runs_agree_witness:
  "map (\<lambda>(c, r, other). (c, r)) [([[1, 0], [- 1, 0]], 1 :: real, id :: nat \<Rightarrow> nat)]
     = map (\<lambda>(c, r, other). (c, r))
         [([[1, 0], [- 1, 0]], 1, \<lambda>g. snd (np_standard_normal sparse_ops g))] \<and>
   length [([[1, 0], [- 1, 0]], 1 :: real, id :: nat \<Rightarrow> nat)] < cf_frequency greedy_config \<and>
   arms_and_U (run_shared sparse_ops 7 greedy_config [([[1, 0], [- 1, 0]], 1, id)])
     = Inr ([0], ridge_plus_const 1 6 8) \<and>
   arms_and_U (run_shared sparse_ops 0 greedy_config
       [([[1, 0], [- 1, 0]], 1, \<lambda>g. snd (np_standard_normal sparse_ops g))])
     = Inr ([0], ridge_plus_const 1 6 8)"
proof -
  have h1: "map (\<lambda>(c, r, other). (c, r)) [([[1, 0], [- 1, 0]], 1 :: real, id :: nat \<Rightarrow> nat)]
     = map (\<lambda>(c, r, other). (c, r))
         [([[1, 0], [- 1, 0]], 1, \<lambda>g. snd (np_standard_normal sparse_ops g))]"
    by simp
  have h2: "length [([[1, 0], [- 1, 0]], 1 :: real, id :: nat \<Rightarrow> nat)] < cf_frequency greedy_config"
    by (simp add: greedy_config_def)
  have q: "arms_and_U (run_shared sparse_ops 7 greedy_config [([[1, 0], [- 1, 0]], 1, id)])
     = Inr ([0], ridge_plus_const 1 6 8)"
    by (simp add: run_shared_def greedy_init greedy_Action1 greedy_Update1 greedy_generator
          agent_generator_same arms_and_U_def greedy_agent2_def)
  show ?thesis
    using runs_agree[OF h1 disjI2[OF h2], of sparse_ops 7 0] h1 h2 q by simp
qed

text \<open>
  C7 as stated fails: the seed, the contexts and the rewards do not determine a run. In
  the second of these two runs other code draws one number from numpy's generator between
  the \<^verbatim>\<open>Action\<close> and the \<^verbatim>\<open>Update\<close> of round 2. The shuffle of the retraining then orders
  the two recorded rounds differently, the weights differ, and in round 3 the runs choose
  different arms and end with different \<open>U\<close>.
\<close>

theorem shared_generator_counterexample:
  "arms_and_U (run_shared sparse_ops 7 greedy_config
     [([[1, 0], [- 1, 0]], 1, id), ([[2, 0], [- 1, 0]], 0, id), ([[0, 0], [1, 0]], 0, id)])
     = Inr ([0, 0, 0], ridge_plus_const 1 6 (61441 / 72)) \<and>
   arms_and_U (run_shared sparse_ops 7 greedy_config
     [([[1, 0], [- 1, 0]], 1, id),
      ([[2, 0], [- 1, 0]], 0, \<lambda>g. snd (np_standard_normal sparse_ops g)),
      ([[0, 0], [1, 0]], 0, id)])
     = Inr ([0, 0, 1], ridge_plus_const 1 6 84) \<and>
   [0, 0, 0] \<noteq> [0, 0, 1::nat] \<and>
   ridge_plus_const 1 6 (61441 / 72) \<noteq> ridge_plus_const 1 6 84"
proof -
  have "ridge_plus_const 1 6 (61441 / 72) ! 0 ! 0 \<noteq> ridge_plus_const 1 6 84 ! 0 ! 0"
    by (simp add: ridge_nth)
  then have "ridge_plus_const 1 6 (61441 / 72) \<noteq> ridge_plus_const 1 6 84" by metis
  then show ?thesis
    by (simp add: quiet_run noisy_run arms_and_U_def quiet_agent6_def noisy_agent6_def)
qed

end
